theory Spec2Isabelle
  imports Complex_Main
begin

section \<open>ADOA: anomaly detection with partially observed anomalies (adoa.py)\<close>

text \<open>
  The class \<open>ADOA\<close> of \<open>adoa.py\<close> is embedded with explicit state passing: the instance is a
  record, every method takes the instance and returns its result together with the instance
  after the call. Exceptions are values of a sum type. Scores are numpy float64 values in the
  source; here they are real numbers, and the two places where numpy leaves the reals (the
  mean of an empty slice is NaN, a division by zero is NaN or an infinity, neither raises)
  are written out.

  Three collaborators are not part of \<open>adoa.py\<close> and are parameters of the model:
  the fitted isolation forest (scikit-learn), \<open>get_cluster_centers\<close> (module
  \<open>cluster_centers\<close>) and the classifier. The numpy and scikit-learn functions that are
  arithmetic (\<open>np.r_\<close>, \<open>np.min\<close>, \<open>np.max\<close>, \<open>np.mean\<close>, \<open>np.median\<close>, \<open>np.percentile\<close>,
  \<open>minmax_scale\<close>, \<open>StandardScaler\<close>) are written out from their documented behaviour, over
  the reals. Where a rounding error decides a property, the float64 evaluation is written
  out as well (\<open>f64\<close>, \<open>minmax_scale_f64\<close>).
\<close>

subsection \<open>Values\<close>

datatype error = ValueError | AssertionError | IndexError

text \<open>The result of a numpy float64 division: a division by zero gives NaN or an infinity
  (with a RuntimeWarning), it does not raise.\<close>

datatype npfloat = Fin real | PosInf | NegInf | NaN

definition np_divide :: "real \<Rightarrow> real \<Rightarrow> npfloat" where
  "np_divide a b =
     (if b \<noteq> 0 then Fin (a / b)
      else if a = 0 then NaN
      else if 0 < a then PosInf else NegInf)"

text \<open>A threshold attribute (\<open>self.alpha\<close>, \<open>self.beta\<close>): the sentinel \<open>'auto'\<close>, a number,
  or NaN (what \<open>np.mean\<close> of an empty slice returns).\<close>

datatype thr = Auto | Num real | Nan

datatype ncl = AutoClusters | Clusters nat

type_synonym matrix = "real list list"

text \<open>\<open>X_train, y_train, weights\<close>\<close>

type_synonym trainset = "matrix \<times> int list \<times> npfloat list"

subsection \<open>The instance\<close>

record 'c adoa =
  anomalies :: matrix
  unlabel :: matrix
  contamination :: real
  classifer :: 'c
  n_clusters :: ncl
  cluster_algo :: string
  theta :: real
  alpha :: thr
  beta :: thr
  return_proba :: bool
  random_state :: int
  percent :: int
  gailv :: real
  centers :: matrix
  cluster_score :: real

subsection \<open>External collaborators\<close>

text \<open>\<open>IsolationForest(n_estimators=100, contamination, random_state, n_jobs=-1).fit(dataset)\<close>:
  given the contamination, the seed and the data it is fitted on, either a failure or the
  fitted \<open>decision_function\<close>, applied to one sample.\<close>

type_synonym iforest = "real \<Rightarrow> int \<Rightarrow> matrix \<Rightarrow> error + (real list \<Rightarrow> real)"

text \<open>\<open>get_cluster_centers(anomalies, n_clusters, cluster_algo)\<close>, returning the centers and
  the clustering score.\<close>

type_synonym cluster_finder = "matrix \<Rightarrow> ncl \<Rightarrow> string \<Rightarrow> error + (matrix \<times> real)"

text \<open>The classifier object: \<open>fit\<close> changes the object, \<open>predict\<close> and \<open>predict_proba\<close> read it.
  The instance holds a reference to the object (field \<open>classifer\<close>); the object's own state
  is the type \<open>'m\<close>.\<close>

record 'm classifier =
  fit :: "'m \<Rightarrow> matrix \<Rightarrow> int list \<Rightarrow> npfloat list \<Rightarrow> error + 'm"
  predict_labels :: "'m \<Rightarrow> matrix \<Rightarrow> error + int list"
  predict_proba :: "'m \<Rightarrow> matrix \<Rightarrow> error + matrix"

subsection \<open>numpy and scikit-learn arithmetic\<close>

definition np_min :: "real list \<Rightarrow> real" where
  "np_min xs = Min (set xs)"

definition np_max :: "real list \<Rightarrow> real" where
  "np_max xs = Max (set xs)"

definition np_mean :: "real list \<Rightarrow> real" where
  "np_mean xs = sum_list xs / real (length xs)"

definition np_median :: "real list \<Rightarrow> real" where
  "np_median xs =
     (let ys = sort xs; n = length xs
      in if odd n then ys ! (n div 2)
         else (ys ! (n div 2 - 1) + ys ! (n div 2)) / 2)"

text \<open>\<open>np.percentile(xs, q)\<close> with the default linear interpolation between the two closest
  ranks of the sorted data.\<close>

definition percentile_linear :: "real list \<Rightarrow> int \<Rightarrow> real" where
  "percentile_linear xs q =
     (let ys = sort xs; n = length xs;
          virtual_index = real (n - 1) * real_of_int q / 100;
          lo = nat \<lfloor>virtual_index\<rfloor>;
          hi = min (lo + 1) (n - 1);
          g = virtual_index - real lo
      in ys ! lo + (ys ! hi - ys ! lo) * g)"

text \<open>\<open>np.percentile\<close> raises ValueError ("Percentiles must be in the range [0, 100]") for
  any other \<open>q\<close>.\<close>

definition np_percentile :: "real list \<Rightarrow> int \<Rightarrow> error + real" where
  "np_percentile xs q =
     (if q < 0 \<or> 100 < q then Inl ValueError else Inr (percentile_linear xs q))"

text \<open>The machine epsilon of float64, \<open>np.finfo(np.float64).eps\<close>.\<close>

definition eps64 :: real where
  "eps64 = 1 / 2 ^ 52"

text \<open>\<open>sklearn.preprocessing.minmax_scale\<close> on a one-dimensional array, feature range (0, 1):
  \<open>X * scale_ + min_\<close> with \<open>scale_ = 1 / data_range\<close>, a range below \<open>10 * eps\<close> replaced by 1
  (the array counts as constant), and \<open>min_ = 0 - data_min * scale_\<close>. An empty array is
  rejected with ValueError.\<close>

definition minmax_scale :: "real list \<Rightarrow> error + real list" where
  "minmax_scale xs =
     (if xs = [] then Inl ValueError
      else
        let data_min = np_min xs; data_max = np_max xs;
            data_range = data_max - data_min;
            scale = 1 / (if data_range < 10 * eps64 then 1 else data_range);
            min_shift = 0 - data_min * scale
        in Inr (map (\<lambda>x. x * scale + min_shift) xs))"




text \<open>
  An input array: one-dimensional, or two-dimensional with its number of columns and its
  rows, each of that length. A set of \<open>n\<close> samples with \<open>d\<close> features is \<open>Array2 d rows\<close>
  with \<open>n\<close> rows (shape \<open>(n, d)\<close>), the empty set of such samples \<open>Array2 d []\<close>. \<open>len\<close> is
  the length of the first axis.
\<close>

datatype ndarray = Array1 "real list" | Array2 nat matrix

fun len :: "ndarray \<Rightarrow> nat" where
  "len (Array1 xs) = length xs"
| "len (Array2 d rows) = length rows"

text \<open>
  \<open>np.r_[a, b]\<close> concatenates along the first axis. It raises ValueError when the arrays
  differ in their number of dimensions or, both two-dimensional, in their number of columns.
\<close>

fun np_r :: "ndarray \<Rightarrow> ndarray \<Rightarrow> error + ndarray" where
  "np_r (Array1 xs) (Array1 ys) = Inr (Array1 (xs @ ys))"
| "np_r (Array2 d a) (Array2 d' b) =
     (if d \<noteq> d' then Inl ValueError else Inr (Array2 d (a @ b)))"
| "np_r (Array1 xs) (Array2 d' b) = Inl ValueError"
| "np_r (Array2 d a) (Array1 ys) = Inl ValueError"

text \<open>
  \<open>StandardScaler().fit_transform\<close>: every column minus its mean, divided by its standard
  deviation (the square root of the population variance). A column that counts as constant
  (\<open>var \<le> n * eps * var + (n * mean * eps)\<^sup>2\<close>, in particular a column of variance 0) is
  divided by 1. A one-dimensional array and an array without rows or without columns are
  rejected with ValueError.
\<close>

definition column :: "matrix \<Rightarrow> nat \<Rightarrow> real list" where
  "column rows j = map (\<lambda>r. r ! j) rows"

definition np_var :: "real list \<Rightarrow> real" where
  "np_var xs = np_mean (map (\<lambda>x. (x - np_mean xs)\<^sup>2) xs)"

definition column_scale :: "real list \<Rightarrow> real" where
  "column_scale col =
     (let n = real (length col); var = np_var col
      in if var \<le> n * eps64 * var + (n * np_mean col * eps64)\<^sup>2 then 1 else sqrt var)"

definition standard_scaler :: "ndarray \<Rightarrow> error + matrix" where
  "standard_scaler a =
     (case a of
        Array1 xs \<Rightarrow> Inl ValueError
      | Array2 d rows \<Rightarrow>
          if rows = [] \<or> d = 0 then Inl ValueError
          else Inr (map (\<lambda>r. map (\<lambda>j. (r ! j - np_mean (column rows j))
                                         / column_scale (column rows j)) [0..<d]) rows))"

text \<open>Indexing an array with a boolean mask of the same length.\<close>

definition mask_select :: "'a list \<Rightarrow> bool list \<Rightarrow> 'a list" where
  "mask_select xs bs = map fst (filter snd (zip xs bs))"

subsection \<open>\<open>__init__\<close>\<close>

record 'c ctor_args =
  arg_anomalies :: ndarray
  arg_unlabel :: ndarray
  arg_classifer :: 'c
  arg_cluster_algo :: string
  arg_n_clusters :: ncl
  arg_contamination :: real
  arg_theta :: real
  arg_alpha :: thr
  arg_beta :: thr
  arg_return_proba :: bool
  arg_random_state :: int
  arg_percent :: int
  arg_gailv :: real

text \<open>Lines 42 to 56.\<close>

definition init :: "cluster_finder \<Rightarrow> 'c ctor_args \<Rightarrow> error + 'c adoa" where
  "init get_cluster_centers a =
     (case np_r (arg_anomalies a) (arg_unlabel a) of
        Inl e \<Rightarrow> Inl e
      | Inr dataset \<Rightarrow>
          (case standard_scaler dataset of
             Inl e \<Rightarrow> Inl e
           | Inr dataset_scaled \<Rightarrow>
               (let anoms = take (len (arg_anomalies a)) dataset_scaled;
                    unl = drop (len (arg_anomalies a)) dataset_scaled
                in (case get_cluster_centers anoms (arg_n_clusters a) (arg_cluster_algo a) of
                      Inl e \<Rightarrow> Inl e
                    | Inr (cs, score) \<Rightarrow>
                        Inr \<lparr> anomalies = anoms, unlabel = unl,
                              contamination = arg_contamination a,
                              classifer = arg_classifer a,
                              n_clusters = arg_n_clusters a,
                              cluster_algo = arg_cluster_algo a,
                              theta = arg_theta a,
                              alpha = arg_alpha a,
                              beta = arg_beta a,
                              return_proba = arg_return_proba a,
                              random_state = arg_random_state a,
                              percent = arg_percent a,
                              gailv = arg_gailv a,
                              centers = cs, cluster_score = score \<rparr>))))"

subsection \<open>\<open>cal_weighted_score\<close>\<close>

text \<open>The inner function \<open>cal_similarity_score(arr, centers)\<close>:
  \<open>min_dist = np.min([np.square(arr - center).sum() for center in centers])\<close>,
  \<open>np.exp(-min_dist / len(arr))\<close>.\<close>

definition square_dist :: "real list \<Rightarrow> real list \<Rightarrow> real" where
  "square_dist arr center = sum_list (map (\<lambda>(x, c). (x - c)\<^sup>2) (zip arr center))"

definition cal_similarity_score :: "real list \<Rightarrow> matrix \<Rightarrow> real" where
  "cal_similarity_score arr cs =
     (let min_dist = np_min (map (square_dist arr) cs)
      in exp (- min_dist / real (length arr)))"

text \<open>
  \<open>np.min\<close> of the empty list of distances raises ValueError, so an instance without centers
  fails at the first sample. A data matrix without feature columns does not get this far in
  the source (the scaler and the forest both reject it with ValueError); the model raises the
  same error rather than dividing by \<open>len(arr) = 0\<close>.
\<close>

definition cal_weighted_score :: "iforest \<Rightarrow> 'c adoa \<Rightarrow> error + real list" where
  "cal_weighted_score iforest s =
     (let dataset = anomalies s @ unlabel s
      in (case iforest (contamination s) (random_state s) dataset of
            Inl e \<Rightarrow> Inl e
          | Inr decision_function \<Rightarrow>
              (let isolation_score = map (\<lambda>x. - decision_function x) dataset
               in (case minmax_scale isolation_score of
                     Inl e \<Rightarrow> Inl e
                   | Inr isolation_score_scaled \<Rightarrow>
                       (if centers s = [] \<or> (\<exists>arr \<in> set dataset. arr = []) then Inl ValueError
                        else
                          (let similarity_score =
                                 map (\<lambda>arr. cal_similarity_score arr (centers s)) dataset
                           in (case minmax_scale similarity_score of
                                 Inl e \<Rightarrow> Inl e
                               | Inr similarity_score_scaled \<Rightarrow>
                                   Inr (map2 (\<lambda>i m. theta s * i + (1 - theta s) * m)
                                          isolation_score_scaled
                                          similarity_score_scaled))))))))"


subsection \<open>\<open>determine_trainset\<close>\<close>

text \<open>Line 98: \<open>self.alpha\<close> is computed only while it is still \<open>'auto'\<close>. The mean of an empty
  anomaly slice is NaN, and NaN stays NaN through the arithmetic.\<close>

definition resolve_alpha :: "thr \<Rightarrow> real list \<Rightarrow> real \<Rightarrow> real \<Rightarrow> thr" where
  "resolve_alpha t anomalies_score min_score g =
     (case t of
        Auto \<Rightarrow> (if anomalies_score = [] then Nan
                 else Num (((np_mean anomalies_score + min_score) / 2) * g))
      | Num a \<Rightarrow> Num a
      | Nan \<Rightarrow> Nan)"

text \<open>Lines 100 to 106, the loop \<open>while self.beta >= self.alpha\<close>. The result is the error
  raised inside the loop, if any, and the value \<open>self.beta\<close> holds when the loop is left.
  The call \<open>np.percentile(weighted_score, percent)\<close> of line 106 is \<open>np_percentile\<close> written
  out: the range check, then \<open>percentile_linear\<close>.\<close>

function relax :: "real list \<Rightarrow> real \<Rightarrow> real \<Rightarrow> int \<Rightarrow> error option \<times> real" where
  "relax ws a b p =
     (if b \<ge> a then
        (let p' = p - 5
         in if p' = 0 then (None, a * (9 / 10))
            else if p' < 0 \<or> 100 < p' then (Some ValueError, b)
            else relax ws a (percentile_linear ws p') p')
      else (None, b))"
  by pat_completeness auto
termination
  by (relation "measure (\<lambda>(ws, a, b, p). nat p)") auto

declare relax.simps [simp del]

text \<open>Lines 110 to 126: the partition of the unlabeled pool and the three parallel arrays.\<close>

definition assemble :: "'c adoa \<Rightarrow> real list \<Rightarrow> real \<Rightarrow> real \<Rightarrow> trainset" where
  "assemble s weighted_score a b =
     (let min_score = np_min weighted_score; max_score = np_max weighted_score;
          unlabel_scores = drop (length (anomalies s)) weighted_score;
          rlb_bool = map (\<lambda>x. x \<le> b) unlabel_scores;
          ptt_bool = map (\<lambda>x. x \<ge> a) unlabel_scores;
          ptt_normal = mask_select (unlabel s) ptt_bool;
          rlb_anomalies = mask_select (unlabel s) rlb_bool;
          rlb_anomalies_score = mask_select unlabel_scores rlb_bool;
          ptt_normal_score = mask_select unlabel_scores ptt_bool;
          rlb_anomalies_weight =
            map (\<lambda>x. np_divide (max_score - x) (max_score - min_score)) rlb_anomalies_score;
          ptt_normal_weight = map (\<lambda>x. np_divide x max_score) ptt_normal_score;
          normal_weight = replicate (length (anomalies s)) (1::real);
          normal_label = normal_weight;
          X_train = anomalies s @ ptt_normal @ rlb_anomalies;
          weights = map Fin normal_weight @ ptt_normal_weight @ rlb_anomalies_weight;
          y_train = map (\<lambda>x. \<lfloor>x\<rfloor>)
                      (normal_label @ replicate (length ptt_normal) 1
                         @ replicate (length rlb_anomalies) 0)
      in (X_train, y_train, weights))"

text \<open>
  Lines 98 to 107 on the scores. With \<open>self.alpha\<close> NaN every comparison is False: line 99
  takes the percentile, the loop is not entered and the assertion fails.
\<close>

definition determine_trainset ::
  "iforest \<Rightarrow> 'c adoa \<Rightarrow> (error + trainset) \<times> 'c adoa" where
  "determine_trainset iforest s =
     (case cal_weighted_score iforest s of
        Inl e \<Rightarrow> (Inl e, s)
      | Inr weighted_score \<Rightarrow>
          (let min_score = np_min weighted_score;
               median_score = np_median weighted_score;
               anomalies_score = take (length (anomalies s)) weighted_score;
               s1 = s\<lparr>alpha := resolve_alpha (alpha s) anomalies_score min_score (gailv s)\<rparr>
           in (case alpha s1 of
                 Num a \<Rightarrow>
                   (case (if median_score < a then Inr median_score
                          else np_percentile weighted_score (percent s)) of
                      Inl e \<Rightarrow> (Inl e, s1)
                    | Inr b0 \<Rightarrow>
                        (case relax weighted_score a b0 (percent s) of
                           (Some e, b) \<Rightarrow> (Inl e, s1\<lparr>beta := Num b\<rparr>)
                         | (None, b) \<Rightarrow>
                             (if b < a
                              then (Inr (assemble s weighted_score a b), s1\<lparr>beta := Num b\<rparr>)
                              else (Inl AssertionError, s1\<lparr>beta := Num b\<rparr>))))
               | _ \<Rightarrow>
                   (case np_percentile weighted_score (percent s) of
                      Inl e \<Rightarrow> (Inl e, s1)
                    | Inr b0 \<Rightarrow> (Inl AssertionError, s1\<lparr>beta := Num b0\<rparr>)))))"

subsection \<open>\<open>predict\<close> and \<open>__repr__\<close>\<close>

text \<open>\<open>clf.predict_proba(self.unlabel)[:, 1]\<close>\<close>

definition column_1 :: "matrix \<Rightarrow> error + real list" where
  "column_1 rows =
     (if \<exists>r \<in> set rows. length r < 2 then Inl IndexError else Inr (map (\<lambda>r. r ! 1) rows))"

definition predict ::
  "'m classifier \<Rightarrow> iforest \<Rightarrow> 'c adoa \<Rightarrow> 'm
     \<Rightarrow> (error + int list \<times> real list option) \<times> 'c adoa \<times> 'm" where
  "predict clf iforest s m =
     (case determine_trainset iforest s of
        (Inl e, s') \<Rightarrow> (Inl e, s', m)
      | (Inr (X_train, y_train, weights), s') \<Rightarrow>
          (case fit clf m X_train y_train weights of
             Inl e \<Rightarrow> (Inl e, s', m)
           | Inr m' \<Rightarrow>
               (case predict_labels clf m' (unlabel s') of
                  Inl e \<Rightarrow> (Inl e, s', m')
                | Inr y_pred \<Rightarrow>
                    if return_proba s' then
                      (case predict_proba clf m' (unlabel s') of
                         Inl e \<Rightarrow> (Inl e, s', m')
                       | Inr probs \<Rightarrow>
                           (case column_1 probs of
                              Inl e \<Rightarrow> (Inl e, s', m')
                            | Inr y_prob \<Rightarrow> (Inr (y_pred, Some y_prob), s', m')))
                    else (Inr (y_pred, None), s', m'))))"

text \<open>\<open>__repr__\<close> formats six numbers into three sentences; the model returns the numbers:
  the number of centers, the clustering score, the number of reliable normals and its share
  of the unlabeled pool, the number of potential anomalies and its share. The counts are
  numpy integers, so a division by \<open>len(self.unlabel) = 0\<close> gives NaN or an infinity.
  (Only the sum of an empty \<open>y_train\<close> is a Python integer, and \<open>y_train\<close> and the unlabeled
  pool are both empty only when there is no data, where scoring has already failed.)\<close>

type_synonym report = "nat \<times> real \<times> int \<times> npfloat \<times> int \<times> npfloat"

definition repr :: "iforest \<Rightarrow> 'c adoa \<Rightarrow> (error + report) \<times> 'c adoa" where
  "repr iforest s =
     (case determine_trainset iforest s of
        (Inl e, s') \<Rightarrow> (Inl e, s')
      | (Inr (X_train, y_train, weights), s') \<Rightarrow>
          let rll_num = int (length (filter (\<lambda>y. y = 0) y_train));
              ptt_num = sum_list y_train - int (length (anomalies s'))
          in (Inr (length (centers s'), cluster_score s',
                   rll_num, np_divide (real_of_int rll_num) (real (length (unlabel s'))),
                   ptt_num, np_divide (real_of_int ptt_num) (real (length (unlabel s')))),
              s'))"

subsection \<open>Sequences of method calls\<close>

text \<open>The three methods a caller can invoke after construction, and what a call does to
  the instance and to the classifier object. A sequence of calls threads both through.\<close>

datatype invocation = DetermineTrainset | Predict | Repr

fun call :: "'m classifier \<Rightarrow> iforest \<Rightarrow> invocation \<Rightarrow> 'c adoa \<times> 'm \<Rightarrow> 'c adoa \<times> 'm" where
  "call clf iforest DetermineTrainset (s, m) = (snd (determine_trainset iforest s), m)"
| "call clf iforest Predict (s, m) = snd (predict clf iforest s m)"
| "call clf iforest Repr (s, m) = (snd (repr iforest s), m)"

definition calls :: "'m classifier \<Rightarrow> iforest \<Rightarrow> invocation list \<Rightarrow> 'c adoa \<times> 'm \<Rightarrow> 'c adoa \<times> 'm" where
  "calls clf iforest ms sm = foldl (\<lambda>sm' meth. call clf iforest meth sm') sm ms"

subsection \<open>The specification's wording\<close>

text \<open>"Rescale linearly across the whole dataset into [0,1]": the smallest value goes to 0,
  the largest to 1, by \<open>(x - min) / (max - min)\<close>; an array that counts as constant (range
  below \<open>10 * eps\<close>) is only shifted, by \<open>x - min\<close>.\<close>

definition linear_rescale :: "real list \<Rightarrow> real list" where
  "linear_rescale xs =
     map (\<lambda>x. (x - Min (set xs))
                / (if Max (set xs) - Min (set xs) < 10 * eps64 then 1
                   else Max (set xs) - Min (set xs))) xs"

text \<open>"potential_anomaly = {score \<ge> \<alpha>}" and "reliable_normal = {score \<le> \<beta>}": the positions in
  the unlabeled pool, in input order, given the scores of the pool.\<close>

definition ptt_index :: "real list \<Rightarrow> real \<Rightarrow> nat list" where
  "ptt_index us a = filter (\<lambda>i. us ! i \<ge> a) [0..<length us]"

definition rlb_index :: "real list \<Rightarrow> real \<Rightarrow> nat list" where
  "rlb_index us b = filter (\<lambda>i. us ! i \<le> b) [0..<length us]"

text \<open>"While \<beta> \<ge> \<alpha>, decrease the percentile by 5 and recompute \<beta> from that percentile": the
  percentiles the relaxation goes through, \<open>p - 5, p - 10, ...\<close> as long as they are positive.\<close>

definition relax_percents :: "int \<Rightarrow> int list" where
  "relax_percents p = map (\<lambda>k. p - 5 * int k) [1..<nat ((p + 4) div 5)]"

text \<open>
  The derivation of \<beta> in the specification's words: the median if it is below \<alpha>; otherwise
  the configured percentile, and if that is not below \<alpha> either, the first of the relaxed
  percentiles that is; if none is, 0.9 \<alpha> when the percentile reaches 0, that is when the
  configured percent is a positive multiple of 5. Where the specification is silent the
  percentile function decides: it rejects a percent outside [0, 100].
\<close>

definition spec_beta :: "real list \<Rightarrow> real \<Rightarrow> int \<Rightarrow> error + real" where
  "spec_beta ws a p =
     (if np_median ws < a then Inr (np_median ws)
      else if p < 0 \<or> 100 < p then Inl ValueError
      else if percentile_linear ws p < a then Inr (percentile_linear ws p)
      else (case find (\<lambda>b. b < a) (map (percentile_linear ws) (relax_percents p)) of
              Some b \<Rightarrow> Inr b
            | None \<Rightarrow> if 0 < p \<and> 5 dvd p then Inr (a * (9 / 10)) else Inl ValueError))"

text \<open>The outcome of the loop as a result: the error, or the value of \<open>self.beta\<close>.\<close>

definition outcome :: "error option \<times> real \<Rightarrow> error + real" where
  "outcome r = (case r of (Some e, b) \<Rightarrow> Inl e | (None, b) \<Rightarrow> Inr b)"

subsection \<open>Example instances\<close>

text \<open>
  The examples are instances as \<open>__init__\<close> leaves them: the data is standardized (every
  column has mean 0 and variance 1 over anomalies and unlabeled rows together) and the
  centers are the means of two clusters of the anomalies. All but \<open>ex_blend\<close> use
  \<open>theta = 0\<close>, so the isolation score has weight 0 and the weighted score is the rescaled
  similarity score, whatever the forest answers.
\<close>

definition forest0 :: iforest where
  "forest0 c r dataset = Inr (\<lambda>x. 0)"

text \<open>Three anomalies and five unlabeled samples with one feature; \<open>alpha\<close> and \<open>beta\<close> are
  left at \<open>'auto'\<close>. The weighted scores are 1, 1, 1 for the anomalies and 0, 1, 0, 0, 0 for
  the unlabeled samples.\<close>

definition ex_auto :: "unit adoa" where
  "ex_auto =
     \<lparr> anomalies = [[1], [1], [-1]],
       unlabel = [[-2], [1], [0], [0], [0]],
       contamination = 1 / 100, classifer = (),
       n_clusters = Clusters 2, cluster_algo = ''kmeans'',
       theta = 0, alpha = Auto, beta = Auto,
       return_proba = False, random_state = 2018, percent = 45, gailv = 1,
       centers = [[1], [-1]], cluster_score = 1 \<rparr>"

text \<open>Every sample lies on a center, so all weighted scores are equal (they are 0).\<close>

definition ex_flat :: "unit adoa" where
  "ex_flat =
     \<lparr> anomalies = [[1], [1], [-1]],
       unlabel = [[-1]],
       contamination = 1 / 100, classifer = (),
       n_clusters = Clusters 2, cluster_algo = ''kmeans'',
       theta = 0, alpha = Auto, beta = Auto,
       return_proba = False, random_state = 2018, percent = 45, gailv = 1,
       centers = [[1], [-1]], cluster_score = 1 \<rparr>"

text \<open>The same data with \<open>alpha = 0.5\<close> given to the constructor.\<close>

definition ex_nan :: "unit adoa" where
  "ex_nan = ex_flat\<lparr>alpha := Num (1 / 2)\<rparr>"

text \<open>Three anomalies and eleven unlabeled samples, constructed with \<open>alpha = 0.8\<close> and
  \<open>beta = 0.2\<close>. The unlabeled sample -3 has the lowest similarity (score 0), the two
  samples 1 lie on a center (score 1), the eight samples 0 score \<open>mid_score\<close>, about 0.356.\<close>

definition mid_score :: real where
  "mid_score = (exp (- 1) - exp (- 4)) / (1 - exp (- 4))"

definition ex_manual :: "unit adoa" where
  "ex_manual =
     \<lparr> anomalies = [[1], [1], [-1]],
       unlabel = [[-3], [1], [1], [0], [0], [0], [0], [0], [0], [0], [0]],
       contamination = 1 / 100, classifer = (),
       n_clusters = Clusters 2, cluster_algo = ''kmeans'',
       theta = 0, alpha = Num (4 / 5), beta = Num (1 / 5),
       return_proba = False, random_state = 2018, percent = 45, gailv = 1,
       centers = [[1], [-1]], cluster_score = 1 \<rparr>"

text \<open>Six anomalies with two features and an empty unlabeled pool.\<close>

definition ex_no_unlabel :: "unit adoa" where
  "ex_no_unlabel =
     \<lparr> anomalies = [[1, 1], [1, 1], [1, -1], [-1, -1], [-1, -1], [-1, 1]],
       unlabel = [],
       contamination = 1 / 100, classifer = (),
       n_clusters = Clusters 2, cluster_algo = ''kmeans'',
       theta = 0, alpha = Auto, beta = Auto,
       return_proba = False, random_state = 2018, percent = 45, gailv = 1,
       centers = [[1, 1 / 3], [-1, - (1 / 3)]], cluster_score = 5 \<rparr>"

text \<open>The same data with a second feature that is 0 in every row: what the scaler makes
  of a feature that is 7 in every row.\<close>

definition ex_zero_var :: "unit adoa" where
  "ex_zero_var =
     \<lparr> anomalies = [[1, 0], [1, 0], [-1, 0]],
       unlabel = [[-2, 0], [1, 0], [0, 0], [0, 0], [0, 0]],
       contamination = 1 / 100, classifer = (),
       n_clusters = Clusters 2, cluster_algo = ''kmeans'',
       theta = 0, alpha = Auto, beta = Auto,
       return_proba = False, random_state = 2018, percent = 45, gailv = 1,
       centers = [[1, 0], [-1, 0]], cluster_score = 1 \<rparr>"

text \<open>No anomalies; the eight samples of \<open>ex_auto\<close> are all unlabeled, and the cluster
  finder is taken to have answered the two centers all the same.\<close>

definition ex_no_anomaly :: "unit adoa" where
  "ex_no_anomaly =
     \<lparr> anomalies = [],
       unlabel = [[1], [1], [-1], [-2], [1], [0], [0], [0]],
       contamination = 1 / 100, classifer = (),
       n_clusters = Clusters 2, cluster_algo = ''kmeans'',
       theta = 0, alpha = Auto, beta = Auto,
       return_proba = False, random_state = 2018, percent = 45, gailv = 1,
       centers = [[1], [-1]], cluster_score = 1 \<rparr>"

text \<open>A cluster finder that answers the given centers and score: on the examples, the
  means of the two clusters of the anomalies.\<close>

definition answers :: "matrix \<Rightarrow> real \<Rightarrow> cluster_finder" where
  "answers cs score anoms k algo = Inr (cs, score)"

text \<open>The arguments of the constructor calls behind the examples: arrays with \<open>d\<close> columns,
  \<open>theta = 0\<close>, two clusters, the other options at their defaults.\<close>

definition ex_args :: "nat \<Rightarrow> matrix \<Rightarrow> matrix \<Rightarrow> thr \<Rightarrow> thr \<Rightarrow> unit ctor_args" where
  "ex_args d anoms unl a b =
     \<lparr> arg_anomalies = Array2 d anoms, arg_unlabel = Array2 d unl, arg_classifer = (),
       arg_cluster_algo = ''kmeans'', arg_n_clusters = Clusters 2,
       arg_contamination = 1 / 100, arg_theta = 0,
       arg_alpha = a, arg_beta = b, arg_return_proba = False,
       arg_random_state = 2018, arg_percent = 45, arg_gailv = 1 \<rparr>"



definition ex_blend :: "unit adoa" where
  "ex_blend =
     \<lparr> anomalies = [[1, 0], [1, 0], [-1, 0]],
       unlabel = [[-3, 0], [1, 0], [1, 0], [0, 0], [0, 0], [0, 0], [0, 0], [0, 0], [0, 0],
                  [0, 0], [0, 0]],
       contamination = 1 / 100, classifer = (),
       n_clusters = Clusters 2, cluster_algo = ''kmeans'',
       theta = 1 / 2, alpha = Auto, beta = Auto,
       return_proba = False, random_state = 2018, percent = 45, gailv = 1,
       centers = [[1, 0], [-1, 0]], cluster_score = 1 \<rparr>"

text \<open>A classifier that learns nothing and predicts the normal class.\<close>

definition ex_clf :: "unit classifier" where
  "ex_clf = \<lparr> fit = (\<lambda>m X y w. Inr m),
              predict_labels = (\<lambda>m X. Inr (map (\<lambda>x. 0) X)),
              predict_proba = (\<lambda>m X. Inr (map (\<lambda>x. [1, 0]) X)) \<rparr>"

section \<open>Properties\<close>

subsection \<open>The examples are constructed instances\<close>

lemma standardized_column:
  "np_mean [1, 1, -1, -2, 1, 0, 0, 0] = 0" "column_scale [1, 1, -1, -2, 1, 0, 0, 0] = 1"
  "np_mean [1, 1, -1, -1] = 0" "column_scale [1, 1, -1, -1] = 1"
  "np_mean [1, 1, -1, -3, 1, 1, 0, 0, 0, 0, 0, 0, 0, 0] = 0"
  "column_scale [1, 1, -1, -3, 1, 1, 0, 0, 0, 0, 0, 0, 0, 0] = 1"
  "np_mean [1, 1, 1, -1, -1, -1] = 0" "column_scale [1, 1, 1, -1, -1, -1] = 1"
  "np_mean [1, 1, -1, -1, -1, 1] = 0" "column_scale [1, 1, -1, -1, -1, 1] = 1"
  by (simp_all add: np_mean_def np_var_def column_scale_def eps64_def)

lemma constant_column:
  "np_mean [7, 7, 7, 7, 7, 7, 7, 7] = 7" "column_scale [7, 7, 7, 7, 7, 7, 7, 7] = 1"
  by (simp_all add: np_mean_def np_var_def column_scale_def eps64_def)

lemma upt_small: "[0..<1] = [0]" "[0..<2] = [0, 1]"
  by (simp_all add: upt_rec)

lemma init_examples:
  "init (answers [[1], [-1]] 1)
     (ex_args 1 [[1], [1], [-1]] [[-2], [1], [0], [0], [0]] Auto Auto) = Inr ex_auto"
  "init (answers [[1], [-1]] 1) (ex_args 1 [[1], [1], [-1]] [[-1]] Auto Auto) = Inr ex_flat"
  "init (answers [[1], [-1]] 1) (ex_args 1 [[1], [1], [-1]] [[-1]] (Num (1 / 2)) Auto) = Inr ex_nan"
  "init (answers [[1], [-1]] 1)
     (ex_args 1 [[1], [1], [-1]] [[-3], [1], [1], [0], [0], [0], [0], [0], [0], [0], [0]]
        (Num (4 / 5)) (Num (1 / 5))) = Inr ex_manual"
  "init (answers [[1, 1 / 3], [-1, - (1 / 3)]] 5)
     (ex_args 2 [[1, 1], [1, 1], [1, -1], [-1, -1], [-1, -1], [-1, 1]] [] Auto Auto)
     = Inr ex_no_unlabel"
  "init (answers [[1, 0], [-1, 0]] 1)
     (ex_args 2 [[1, 7], [1, 7], [-1, 7]] [[-2, 7], [1, 7], [0, 7], [0, 7], [0, 7]] Auto Auto)
     = Inr ex_zero_var"
  by (simp_all add: init_def standard_scaler_def column_def answers_def ex_args_def
      standardized_column constant_column upt_small
      ex_auto_def ex_flat_def ex_nan_def ex_manual_def ex_no_unlabel_def ex_zero_var_def)

lemma constant_column_14:
  "np_mean [7, 7, 7, 7, 7, 7, 7, 7, 7, 7, 7, 7, 7, 7] = 7"
  "column_scale [7, 7, 7, 7, 7, 7, 7, 7, 7, 7, 7, 7, 7, 7] = 1"
  by (simp_all add: np_mean_def np_var_def column_scale_def eps64_def)

lemma init_blend:
  "init (answers [[1, 0], [-1, 0]] 1)
     ((ex_args 2 [[1, 7], [1, 7], [-1, 7]]
         [[-3, 7], [1, 7], [1, 7], [0, 7], [0, 7], [0, 7], [0, 7], [0, 7], [0, 7], [0, 7], [0, 7]]
         Auto Auto)\<lparr>arg_theta := 1 / 2\<rparr>) = Inr ex_blend"
  by (simp add: init_def standard_scaler_def column_def answers_def ex_args_def
      standardized_column constant_column_14 upt_small ex_blend_def)

subsection \<open>Rescaling and the weighted score\<close>

lemma minmax_scale_length: "minmax_scale xs = Inr ys \<Longrightarrow> length ys = length xs"
  by (auto simp: minmax_scale_def Let_def split: if_splits)

lemma minmax_scale_eq:
  assumes "minmax_scale xs = Inr ys"
  shows "xs \<noteq> [] \<and> ys = linear_rescale xs"
proof -
  have ne: "xs \<noteq> []" using assms by (auto simp: minmax_scale_def split: if_splits)
  let ?r = "if Max (set xs) - Min (set xs) < 10 * eps64 then 1 else Max (set xs) - Min (set xs)"
  have eq: "\<And>x. x * (1 / ?r) + (0 - Min (set xs) * (1 / ?r)) = (x - Min (set xs)) / ?r"
    by (simp add: diff_divide_distrib)
  have "ys = map (\<lambda>x. x * (1 / ?r) + (0 - Min (set xs) * (1 / ?r))) xs"
    using assms ne by (simp add: minmax_scale_def Let_def np_min_def np_max_def)
  then have "ys = map (\<lambda>x. (x - Min (set xs)) / ?r) xs"
    unfolding eq .
  then show ?thesis using ne by (simp add: linear_rescale_def)
qed

lemma eps64_small: "0 < eps64" "10 * eps64 \<le> 1"
  by (simp_all add: eps64_def)

lemma linear_rescale_range:
  assumes "y \<in> set (linear_rescale xs)"
  shows "0 \<le> y \<and> y \<le> 1"
proof -
  let ?m = "Min (set xs)" and ?M = "Max (set xs)"
  from assms obtain x where x: "x \<in> set xs"
    and y: "y = (x - ?m) / (if ?M - ?m < 10 * eps64 then 1 else ?M - ?m)"
    unfolding linear_rescale_def by auto
  have lo: "?m \<le> x" using x by simp
  have hi: "x \<le> ?M" using x by simp
  show ?thesis
  proof (cases "?M - ?m < 10 * eps64")
    case True
    then have "y = x - ?m" using y by simp
    then show ?thesis using lo hi True eps64_small(2) by linarith
  next
    case False
    then have pos: "0 < ?M - ?m" using eps64_small(1) by linarith
    have "y = (x - ?m) / (?M - ?m)" using y False by simp
    then show ?thesis using lo hi pos by (simp add: divide_le_eq_1)
  qed
qed

lemma minmax_scale_range:
  assumes "minmax_scale xs = Inr ys" "y \<in> set ys"
  shows "0 \<le> y \<and> y \<le> 1"
  using linear_rescale_range[of y xs] minmax_scale_eq[OF assms(1)] assms(2) by simp


text \<open>The rescaling of an array whose range is not below \<open>10 * eps\<close>, and of a constant
  array.\<close>

lemma minmax_scale_wide:
  assumes "xs \<noteq> []" "10 * eps64 \<le> np_max xs - np_min xs"
  shows "minmax_scale xs = Inr (map (\<lambda>x. (x - np_min xs) / (np_max xs - np_min xs)) xs)"
proof -
  have "\<not> np_max xs - np_min xs < 10 * eps64" using assms(2) by simp
  then show ?thesis using assms(1)
    by (simp add: minmax_scale_def Let_def diff_divide_distrib)
qed

lemma minmax_scale_constant:
  assumes "xs \<noteq> []" "np_max xs = np_min xs"
  shows "minmax_scale xs = Inr (map (\<lambda>x. x - np_min xs) xs)"
  using assms eps64_small(1) by (simp add: minmax_scale_def Let_def)

lemma square_dist_euclid:
  assumes "length center = length arr"
  shows "square_dist arr center = (\<Sum>j<length arr. (arr ! j - center ! j)\<^sup>2)"
proof -
  have "square_dist arr center = (\<Sum>j = 0..<length arr. (map (\<lambda>(x, c). (x - c)\<^sup>2) (zip arr center)) ! j)"
    unfolding square_dist_def using assms by (simp add: sum_list_sum_nth)
  also have "\<dots> = (\<Sum>j = 0..<length arr. (arr ! j - center ! j)\<^sup>2)"
    using assms by (intro sum.cong) auto
  finally show ?thesis by (simp add: lessThan_atLeast0)
qed

lemma cal_weighted_score_cases:
  assumes "cal_weighted_score iforest s = Inr ws"
  obtains f iso sim where
    "iforest (contamination s) (random_state s) (anomalies s @ unlabel s) = Inr f"
    "minmax_scale (map (\<lambda>x. - f x) (anomalies s @ unlabel s)) = Inr iso"
    "centers s \<noteq> []" "\<forall>arr \<in> set (anomalies s @ unlabel s). arr \<noteq> []"
    "minmax_scale (map (\<lambda>arr. cal_similarity_score arr (centers s)) (anomalies s @ unlabel s)) = Inr sim"
    "ws = map2 (\<lambda>i m. theta s * i + (1 - theta s) * m) iso sim"
  using assms unfolding cal_weighted_score_def Let_def
  by (auto split: sum.splits if_splits)


lemma exp_neg_le:
  fixes x :: real
  assumes "0 \<le> x"
  shows "exp (- x) \<le> 1 / (1 + x)"
proof -
  have "1 + x \<le> exp x" by (rule exp_ge_add_one_self)
  then have "1 / exp x \<le> 1 / (1 + x)" using assms by (intro divide_left_mono) auto
  then show ?thesis by (simp add: exp_minus inverse_eq_divide)
qed

lemma exp_neg_ge:
  fixes x :: real
  shows "1 - x \<le> exp (- x)"
  using exp_ge_add_one_self[of "- x"] by simp

lemma exp_gaps:
  "\<not> 1 - exp (- 1 :: real) < 10 * eps64"
  "\<not> 1 - exp (- 4 :: real) < 10 * eps64"
  "\<not> 1 - exp (- (1 / 2) :: real) < 10 * eps64"
  "\<not> exp (- (2 / 9) :: real) - exp (- (8 / 9)) < 10 * eps64"
proof -
  have e: "10 * eps64 \<le> 1 / 100" by (simp add: eps64_def)
  have "exp (- 1 :: real) \<le> 1 / 2" using exp_neg_le[of "1::real"] by simp
  then show "\<not> 1 - exp (- 1 :: real) < 10 * eps64" using e by linarith
  have "exp (- 4 :: real) \<le> 1 / 5" using exp_neg_le[of "4::real"] by simp
  then show "\<not> 1 - exp (- 4 :: real) < 10 * eps64" using e by linarith
  have "exp (- (1 / 2) :: real) \<le> 2 / 3" using exp_neg_le[of "1 / 2::real"] by simp
  then show "\<not> 1 - exp (- (1 / 2) :: real) < 10 * eps64" using e by linarith
  have "exp (- (8 / 9) :: real) \<le> 9 / 17" using exp_neg_le[of "8 / 9::real"] by simp
  moreover have "7 / 9 \<le> exp (- (2 / 9) :: real)" using exp_neg_ge[of "2 / 9::real"] by simp
  ultimately show "\<not> exp (- (2 / 9) :: real) - exp (- (8 / 9)) < 10 * eps64" using e by linarith
qed

lemma ws_auto: "cal_weighted_score forest0 ex_auto = Inr [1, 1, 1, 0, 1, 0, 0, 0]"
  by (simp add: exp_gaps eps64_small cal_weighted_score_def ex_auto_def forest0_def minmax_scale_def Let_def
      np_min_def np_max_def cal_similarity_score_def square_dist_def diff_divide_distrib[symmetric])

lemma ws_manual:
  "cal_weighted_score forest0 ex_manual =
     Inr [1, 1, 1, 0, 1, 1, mid_score, mid_score, mid_score, mid_score,
          mid_score, mid_score, mid_score, mid_score]"
  by (simp add: exp_gaps eps64_small cal_weighted_score_def ex_manual_def forest0_def
      minmax_scale_def Let_def np_min_def np_max_def cal_similarity_score_def square_dist_def
      diff_divide_distrib[symmetric] mid_score_def)


















subsection \<open>The training set\<close>

lemma cal_weighted_score_length:
  assumes "cal_weighted_score iforest s = Inr ws"
  shows "length ws = length (anomalies s) + length (unlabel s)"
proof -
  from assms obtain f iso sim where
    iso: "minmax_scale (map (\<lambda>x. - f x) (anomalies s @ unlabel s)) = Inr iso" and
    sim: "minmax_scale (map (\<lambda>arr. cal_similarity_score arr (centers s)) (anomalies s @ unlabel s)) = Inr sim" and
    ws: "ws = map2 (\<lambda>i m. theta s * i + (1 - theta s) * m) iso sim"
    by (rule cal_weighted_score_cases)
  show ?thesis using minmax_scale_length[OF iso] minmax_scale_length[OF sim] ws by simp
qed

lemma cal_weighted_score_range:
  assumes "cal_weighted_score iforest s = Inr ws" "0 \<le> theta s" "theta s \<le> 1" "x \<in> set ws"
  shows "0 \<le> x \<and> x \<le> 1"
proof -
  from assms(1) obtain f iso sim where
    iso: "minmax_scale (map (\<lambda>x. - f x) (anomalies s @ unlabel s)) = Inr iso" and
    sim: "minmax_scale (map (\<lambda>arr. cal_similarity_score arr (centers s)) (anomalies s @ unlabel s)) = Inr sim" and
    ws: "ws = map2 (\<lambda>i m. theta s * i + (1 - theta s) * m) iso sim"
    by (rule cal_weighted_score_cases)
  from assms(4) ws obtain i m where im: "(i, m) \<in> set (zip iso sim)" and x: "x = theta s * i + (1 - theta s) * m"
    by auto
  have "i \<in> set iso" "m \<in> set sim" using im by (auto dest: set_zip_leftD set_zip_rightD)
  then have b: "0 \<le> i" "i \<le> 1" "0 \<le> m" "m \<le> 1"
    using minmax_scale_range[OF iso] minmax_scale_range[OF sim] by blast+
  have lo: "0 \<le> theta s * i + (1 - theta s) * m" using b assms(2,3) by simp
  have "theta s * i \<le> theta s * 1" using b assms(2) by (intro mult_left_mono) auto
  moreover have "(1 - theta s) * m \<le> (1 - theta s) * 1" using b assms(3) by (intro mult_left_mono) auto
  ultimately have "theta s * i + (1 - theta s) * m \<le> 1" by simp
  then show ?thesis using lo x by simp
qed

lemma mask_select_Cons: "mask_select (x # xs) (b # bs) = (if b then [x] else []) @ mask_select xs bs"
  by (simp add: mask_select_def)

lemma mask_select_index:
  "length bs = length xs \<Longrightarrow>
   mask_select xs bs = map ((!) xs) (filter (\<lambda>i. bs ! i) [0..<length xs])"
proof (induction xs arbitrary: bs)
  case Nil
  then show ?case by (simp add: mask_select_def)
next
  case (Cons x xs)
  then obtain b bs' where bs: "bs = b # bs'" "length bs' = length xs"
    by (cases bs) auto
  have up: "[0..<length (x # xs)] = 0 # map Suc [0..<length xs]"
    by (simp add: upt_conv_Cons map_Suc_upt del: upt_Suc)
  show ?case
    unfolding bs(1) mask_select_Cons up Cons.IH[OF bs(2)]
    by (simp add: filter_map comp_def)
qed

lemma mask_select_length:
  "length bs = length xs \<Longrightarrow> length (mask_select xs bs) = length (filter (\<lambda>b. b) bs)"
proof (induction xs arbitrary: bs)
  case Nil
  then show ?case by (simp add: mask_select_def)
next
  case (Cons x xs)
  then obtain b bs' where bs: "bs = b # bs'" "length bs' = length xs"
    by (cases bs) auto
  show ?case unfolding bs(1) mask_select_Cons using Cons.IH[OF bs(2)] by simp
qed

lemma determine_trainset_Inr:
  assumes "determine_trainset iforest s = (Inr r, s')"
  obtains ws a b where
    "cal_weighted_score iforest s = Inr ws"
    "resolve_alpha (alpha s) (take (length (anomalies s)) ws) (np_min ws) (gailv s) = Num a"
    "b < a" "r = assemble s ws a b" "s' = s\<lparr>alpha := Num a, beta := Num b\<rparr>"
  using assms unfolding determine_trainset_def Let_def
  by (auto split: sum.splits thr.splits if_splits prod.splits option.splits)

lemma mask_select_pred:
  assumes "length us = length xs"
  shows "mask_select xs (map P us) = map ((!) xs) (filter (\<lambda>i. P (us ! i)) [0..<length us])"
proof -
  have "filter (\<lambda>i. map P us ! i) [0..<length xs] = filter (\<lambda>i. P (us ! i)) [0..<length xs]"
    using assms by (intro filter_cong) auto
  then show ?thesis using mask_select_index[of "map P us" xs] assms by simp
qed

lemma index_count:
  "length (filter (\<lambda>i. P (us ! i)) [0..<length us]) = length (filter P us)"
proof -
  have "length (mask_select us (map P us)) = length (filter (\<lambda>b. b) (map P us))"
    by (rule mask_select_length) simp
  then show ?thesis by (simp add: mask_select_pred filter_map comp_def)
qed

lemma assemble_eq:
  assumes "length ws = length (anomalies s) + length (unlabel s)"
  shows "assemble s ws a b =
     (anomalies s @ map ((!) (unlabel s)) (ptt_index (drop (length (anomalies s)) ws) a)
        @ map ((!) (unlabel s)) (rlb_index (drop (length (anomalies s)) ws) b),
      replicate (length (anomalies s)) 1
        @ replicate (length (ptt_index (drop (length (anomalies s)) ws) a)) 1
        @ replicate (length (rlb_index (drop (length (anomalies s)) ws) b)) 0,
      replicate (length (anomalies s)) (Fin 1)
        @ map (\<lambda>i. np_divide (drop (length (anomalies s)) ws ! i) (np_max ws))
            (ptt_index (drop (length (anomalies s)) ws) a)
        @ map (\<lambda>i. np_divide (np_max ws - drop (length (anomalies s)) ws ! i) (np_max ws - np_min ws))
            (rlb_index (drop (length (anomalies s)) ws) b))"
proof -
  let ?us = "drop (length (anomalies s)) ws"
  have len: "length ?us = length (unlabel s)" using assms by simp
  have m1: "\<And>P. mask_select (unlabel s) (map P ?us) = map ((!) (unlabel s)) (filter (\<lambda>i. P (?us ! i)) [0..<length ?us])"
    by (rule mask_select_pred[OF len])
  have m2: "\<And>P. mask_select ?us (map P ?us) = map ((!) ?us) (filter (\<lambda>i. P (?us ! i)) [0..<length ?us])"
    by (rule mask_select_pred) simp
  show ?thesis
    unfolding assemble_def Let_def m1 m2 ptt_index_def rlb_index_def
    by (simp add: comp_def map_replicate_const)
qed

lemma ptt_rlb_disjoint:
  assumes "b < a"
  shows "set (ptt_index us a) \<inter> set (rlb_index us b) = {}"
  using assms by (auto simp: ptt_index_def rlb_index_def)

lemma ptt_index_length: "length (ptt_index us a) = length (filter (\<lambda>x. x \<ge> a) us)"
  unfolding ptt_index_def by (rule index_count)

lemma rlb_index_length: "length (rlb_index us b) = length (filter (\<lambda>x. x \<le> b) us)"
  unfolding rlb_index_def by (rule index_count)

text \<open>
  C5. Whenever \<open>determine_trainset\<close> returns, \<open>X_train\<close>, \<open>y_train\<close> and \<open>weights\<close> have the same
  length, which is \<open>len(anomalies)\<close> plus the number of unlabeled scores \<open>\<ge> alpha\<close> plus the
  number of unlabeled scores \<open>\<le> beta\<close>; no unlabeled sample is in both subsets; the rows are
  the anomalies, then the potential anomalies, then the reliable normals, each subset in
  input order; the labels are 1 for the first two groups and 0 for the third. The thresholds
  are the ones the instance holds after the call.
\<close>

theorem determine_trainset_parallel:
  assumes "determine_trainset iforest s = (Inr (X, y, w), s')"
  shows "\<exists>ws a b.
           cal_weighted_score iforest s = Inr ws \<and> alpha s' = Num a \<and> beta s' = Num b \<and>
           length X = length (anomalies s)
                        + length (filter (\<lambda>x. x \<ge> a) (drop (length (anomalies s)) ws))
                        + length (filter (\<lambda>x. x \<le> b) (drop (length (anomalies s)) ws)) \<and>
           length y = length X \<and> length w = length X \<and>
           set (ptt_index (drop (length (anomalies s)) ws) a)
             \<inter> set (rlb_index (drop (length (anomalies s)) ws) b) = {} \<and>
           X = anomalies s
                 @ map ((!) (unlabel s)) (ptt_index (drop (length (anomalies s)) ws) a)
                 @ map ((!) (unlabel s)) (rlb_index (drop (length (anomalies s)) ws) b) \<and>
           y = replicate (length (anomalies s)) 1
                 @ replicate (length (ptt_index (drop (length (anomalies s)) ws) a)) 1
                 @ replicate (length (rlb_index (drop (length (anomalies s)) ws) b)) 0"
proof -
  from assms obtain ws a b where
    ws: "cal_weighted_score iforest s = Inr ws" and ba: "b < a" and
    r: "(X, y, w) = assemble s ws a b" and s': "s' = s\<lparr>alpha := Num a, beta := Num b\<rparr>"
    by (rule determine_trainset_Inr)
  let ?us = "drop (length (anomalies s)) ws"
  note eq = r[unfolded assemble_eq[OF cal_weighted_score_length[OF ws]]]
  have X: "X = anomalies s @ map ((!) (unlabel s)) (ptt_index ?us a)
                 @ map ((!) (unlabel s)) (rlb_index ?us b)"
    using eq by simp
  have y: "y = replicate (length (anomalies s)) 1 @ replicate (length (ptt_index ?us a)) 1
                 @ replicate (length (rlb_index ?us b)) 0"
    using eq by simp
  have w: "length w = length (anomalies s) + length (ptt_index ?us a) + length (rlb_index ?us b)"
    using eq by simp
  have lX: "length X = length (anomalies s) + length (filter (\<lambda>x. x \<ge> a) ?us)
                        + length (filter (\<lambda>x. x \<le> b) ?us)"
    unfolding X by (simp add: ptt_index_length rlb_index_length)
  have ly: "length y = length X" unfolding X y by simp
  have lw: "length w = length X" unfolding X w by simp
  have a': "alpha s' = Num a" "beta s' = Num b" using s' by simp_all
  show ?thesis
    apply (rule exI[of _ ws], rule exI[of _ a], rule exI[of _ b])
    by (intro conjI) (rule ws a' lX ly lw ptt_rlb_disjoint[OF ba] X y)+
qed

lemma dt_auto: "determine_trainset forest0 ex_auto =
   (Inr ([[1], [1], [-1], [1], [-2], [0], [0], [0]], [1, 1, 1, 1, 0, 0, 0, 0],
         [Fin 1, Fin 1, Fin 1, Fin 1, Fin 1, Fin 1, Fin 1, Fin 1]),
    ex_auto\<lparr>alpha := Num (1/2), beta := Num (3/20)\<rparr>)"
  unfolding determine_trainset_def ws_auto
  by (simp add: Let_def resolve_alpha_def ex_auto_def np_mean_def np_min_def np_median_def np_max_def
      np_percentile_def percentile_linear_def relax.simps assemble_def mask_select_def np_divide_def)

text \<open>C5 on \<open>ex_auto\<close>: eight rows, three anomalies, one potential anomaly, four reliable
  normals.\<close>

theorem determine_trainset_parallel_witness:
  "determine_trainset forest0 ex_auto =
     (Inr ([[1], [1], [-1], [1], [-2], [0], [0], [0]], [1, 1, 1, 1, 0, 0, 0, 0],
           [Fin 1, Fin 1, Fin 1, Fin 1, Fin 1, Fin 1, Fin 1, Fin 1]),
      ex_auto\<lparr>alpha := Num (1/2), beta := Num (3/20)\<rparr>) \<and>
   length [[1], [1], [-1], [1], [-2], [0], [0], [0::real]] =
     length (anomalies ex_auto)
       + length (filter (\<lambda>x. x \<ge> 1/2) [0, 1, 0, 0, 0::real])
       + length (filter (\<lambda>x. x \<le> 3/20) [0, 1, 0, 0, 0::real])"
proof -
  note h = dt_auto
  from determine_trainset_parallel[OF h] obtain ws a b where
    ws: "cal_weighted_score forest0 ex_auto = Inr ws" and
    a: "alpha (ex_auto\<lparr>alpha := Num (1/2), beta := Num (3/20)\<rparr>) = Num a" and
    b: "beta (ex_auto\<lparr>alpha := Num (1/2), beta := Num (3/20)\<rparr>) = Num b" and
    len: "length [[1], [1], [-1], [1], [-2], [0], [0], [0::real]] = length (anomalies ex_auto)
                        + length (filter (\<lambda>x. x \<ge> a) (drop (length (anomalies ex_auto)) ws))
                        + length (filter (\<lambda>x. x \<le> b) (drop (length (anomalies ex_auto)) ws))"
    by (elim exE conjE)
  have ws': "ws = [1, 1, 1, 0, 1, 0, 0, 0]" using ws ws_auto by simp
  have a': "a = 1/2" using a by simp
  have b': "b = 3/20" using b by simp
  have d: "drop (length (anomalies ex_auto)) ws = [0, 1, 0, 0, 0]"
    unfolding ws' by (simp add: ex_auto_def)
  show ?thesis using h len[unfolded d a' b'] by (intro conjI)
qed

lemma index_in_set:
  "i \<in> set (ptt_index us a) \<Longrightarrow> us ! i \<in> set us"
  "i \<in> set (rlb_index us b) \<Longrightarrow> us ! i \<in> set us"
  by (auto simp: ptt_index_def rlb_index_def)

lemma np_min_le: "x \<in> set ws \<Longrightarrow> np_min ws \<le> x"
  by (simp add: np_min_def)

lemma np_max_ge: "x \<in> set ws \<Longrightarrow> x \<le> np_max ws"
  by (simp add: np_max_def)

lemma np_min_in: "ws \<noteq> [] \<Longrightarrow> np_min ws \<in> set ws"
  unfolding np_min_def by (rule Min_in) auto

lemma np_max_in: "ws \<noteq> [] \<Longrightarrow> np_max ws \<in> set ws"
  unfolding np_max_def by (rule Max_in) auto

lemma cal_weighted_score_nonempty:
  assumes "cal_weighted_score iforest s = Inr ws"
  shows "ws \<noteq> []"
proof -
  from assms obtain f iso where
    iso: "minmax_scale (map (\<lambda>x. - f x) (anomalies s @ unlabel s)) = Inr iso"
    by (rule cal_weighted_score_cases)
  have "anomalies s @ unlabel s \<noteq> []" using minmax_scale_eq[OF iso] by simp
  then show ?thesis using cal_weighted_score_length[OF assms] by auto
qed

lemma ptt_weight_range:
  fixes x :: real
  assumes "0 \<le> x" "x \<le> M" "0 < M"
  shows "0 \<le> x / M \<and> x / M \<le> 1"
  using assms by simp

lemma rlb_weight_range:
  fixes x :: real
  assumes "m \<le> x" "x \<le> M" "m < M"
  shows "0 \<le> (M - x) / (M - m) \<and> (M - x) / (M - m) \<le> 1"
  using assms by simp

text \<open>
  C6, for scores that are not all equal. Whenever \<open>determine_trainset\<close> returns, every anomaly row has weight 1.0, every
  potential anomaly the numpy quotient \<open>score / max_score\<close> and every reliable normal the
  numpy quotient \<open>(max_score - score) / (max_score - min_score)\<close>. When \<open>theta\<close> is in [0, 1]
  and the weighted scores are not all equal, the quotients are ordinary ones and every
  weight lies in [0, 1].
\<close>

theorem determine_trainset_weights:
  assumes "determine_trainset iforest s = (Inr (X, y, w), s')"
  shows "\<exists>ws a b.
           cal_weighted_score iforest s = Inr ws \<and> alpha s' = Num a \<and> beta s' = Num b \<and>
           w = replicate (length (anomalies s)) (Fin 1)
                 @ map (\<lambda>i. np_divide (drop (length (anomalies s)) ws ! i) (np_max ws))
                     (ptt_index (drop (length (anomalies s)) ws) a)
                 @ map (\<lambda>i. np_divide (np_max ws - drop (length (anomalies s)) ws ! i)
                                   (np_max ws - np_min ws))
                     (rlb_index (drop (length (anomalies s)) ws) b) \<and>
           (0 \<le> theta s \<and> theta s \<le> 1 \<and> np_min ws < np_max ws \<longrightarrow>
              w = replicate (length (anomalies s)) (Fin 1)
                    @ map (\<lambda>i. Fin (drop (length (anomalies s)) ws ! i / np_max ws))
                        (ptt_index (drop (length (anomalies s)) ws) a)
                    @ map (\<lambda>i. Fin ((np_max ws - drop (length (anomalies s)) ws ! i)
                                      / (np_max ws - np_min ws)))
                        (rlb_index (drop (length (anomalies s)) ws) b) \<and>
              (\<forall>v \<in> set w. \<exists>r. v = Fin r \<and> 0 \<le> r \<and> r \<le> 1))"
proof -
  from assms obtain ws a b where
    ws: "cal_weighted_score iforest s = Inr ws" and ba: "b < a" and
    r: "(X, y, w) = assemble s ws a b" and s': "s' = s\<lparr>alpha := Num a, beta := Num b\<rparr>"
    by (rule determine_trainset_Inr)
  let ?n = "length (anomalies s)"
  let ?us = "drop ?n ws"
  let ?M = "np_max ws" and ?m = "np_min ws"
  note eq = r[unfolded assemble_eq[OF cal_weighted_score_length[OF ws]]]
  have w: "w = replicate ?n (Fin 1)
                 @ map (\<lambda>i. np_divide (?us ! i) ?M) (ptt_index ?us a)
                 @ map (\<lambda>i. np_divide (?M - ?us ! i) (?M - ?m)) (rlb_index ?us b)"
    using eq by simp
  have a': "alpha s' = Num a" "beta s' = Num b" using s' by simp_all
  have nondeg: "w = replicate ?n (Fin 1)
                    @ map (\<lambda>i. Fin (?us ! i / ?M)) (ptt_index ?us a)
                    @ map (\<lambda>i. Fin ((?M - ?us ! i) / (?M - ?m))) (rlb_index ?us b) \<and>
              (\<forall>v \<in> set w. \<exists>r. v = Fin r \<and> 0 \<le> r \<and> r \<le> 1)"
    if th: "0 \<le> theta s" "theta s \<le> 1" and lt: "?m < ?M"
  proof -
    have ne: "ws \<noteq> []" by (rule cal_weighted_score_nonempty[OF ws])
    have rng: "\<And>x. x \<in> set ws \<Longrightarrow> 0 \<le> x \<and> x \<le> 1"
      by (rule cal_weighted_score_range[OF ws th])
    have "0 \<le> ?m" using rng[OF np_min_in[OF ne]] by simp
    then have Mpos: "0 < ?M" using lt by simp
    have sub: "\<And>x. x \<in> set ?us \<Longrightarrow> x \<in> set ws" by (rule in_set_dropD)
    have d1: "\<And>x. np_divide x ?M = Fin (x / ?M)" using Mpos by (simp add: np_divide_def)
    have d2: "\<And>x. np_divide x (?M - ?m) = Fin (x / (?M - ?m))" using lt by (simp add: np_divide_def)
    have w2: "w = replicate ?n (Fin 1)
                    @ map (\<lambda>i. Fin (?us ! i / ?M)) (ptt_index ?us a)
                    @ map (\<lambda>i. Fin ((?M - ?us ! i) / (?M - ?m))) (rlb_index ?us b)"
      unfolding w d1 d2 ..
    have "\<exists>r. v = Fin r \<and> 0 \<le> r \<and> r \<le> 1" if v: "v \<in> set w" for v
    proof -
      from v[unfolded w2] consider
          "v = Fin 1"
        | i where "i \<in> set (ptt_index ?us a)" "v = Fin (?us ! i / ?M)"
        | i where "i \<in> set (rlb_index ?us b)" "v = Fin ((?M - ?us ! i) / (?M - ?m))"
        by auto
      then show ?thesis
      proof cases
        case 1
        then show ?thesis by simp
      next
        case (2 i)
        have x: "?us ! i \<in> set ws" using 2(1) by (intro sub index_in_set)
        show ?thesis
          using ptt_weight_range[of "?us ! i" ?M] rng[OF x] np_max_ge[OF x] Mpos 2(2) by blast
      next
        case (3 i)
        have x: "?us ! i \<in> set ws" using 3(1) by (intro sub index_in_set)
        show ?thesis
          using rlb_weight_range[of ?m "?us ! i" ?M] np_min_le[OF x] np_max_ge[OF x] lt 3(2) by blast
      qed
    qed
    then show ?thesis using w2 by blast
  qed
  show ?thesis
    apply (rule exI[of _ ws], rule exI[of _ a], rule exI[of _ b])
    apply (intro conjI impI)
         apply (rule ws a' w)+
    using nondeg by blast+
qed

lemma ws_nan: "cal_weighted_score forest0 ex_nan = Inr [0, 0, 0, 0]"
  by (simp add: cal_weighted_score_def ex_nan_def ex_flat_def forest0_def minmax_scale_def Let_def
      np_min_def np_max_def cal_similarity_score_def square_dist_def)

text \<open>
  C6 as stated fails on \<open>ex_nan\<close>: all scores are 0, the median 0 is below the supplied
  \<open>alpha = 0.5\<close>, the unlabeled sample is a reliable normal, and its weight is
  \<open>(0 - 0) / (0 - 0)\<close>, which numpy evaluates to NaN.
\<close>

theorem determine_trainset_weights_counterexample:
  "determine_trainset forest0 ex_nan =
     (Inr ([[1], [1], [-1], [-1]], [1, 1, 1, 0], [Fin 1, Fin 1, Fin 1, NaN]),
      ex_nan\<lparr>beta := Num 0\<rparr>)"
  unfolding determine_trainset_def ws_nan
  by (simp add: Let_def resolve_alpha_def ex_nan_def ex_flat_def np_mean_def np_min_def np_median_def np_max_def
      np_percentile_def percentile_linear_def relax.simps assemble_def mask_select_def np_divide_def)

text \<open>C6 on \<open>ex_auto\<close>, where \<open>min_score = 0 < 1 = max_score\<close>.\<close>

theorem determine_trainset_weights_witness:
  "determine_trainset forest0 ex_auto =
     (Inr ([[1], [1], [-1], [1], [-2], [0], [0], [0]], [1, 1, 1, 1, 0, 0, 0, 0],
           [Fin 1, Fin 1, Fin 1, Fin 1, Fin 1, Fin 1, Fin 1, Fin 1]),
      ex_auto\<lparr>alpha := Num (1/2), beta := Num (3/20)\<rparr>) \<and>
   0 \<le> theta ex_auto \<and> theta ex_auto \<le> 1 \<and>
   np_min [1, 1, 1, 0, 1, 0, 0, 0] < np_max [1, 1, 1, 0, 1, 0, 0, 0] \<and>
   (\<exists>r. [Fin 1, Fin 1, Fin 1, Fin 1, Fin 1, Fin 1, Fin 1, Fin 1] ! 4 = Fin r \<and> 0 \<le> r \<and> r \<le> 1)"
proof -
  note h = dt_auto
  from determine_trainset_weights[OF h] obtain ws where
    ws: "cal_weighted_score forest0 ex_auto = Inr ws" and
    imp: "0 \<le> theta ex_auto \<and> theta ex_auto \<le> 1 \<and> np_min ws < np_max ws \<longrightarrow>
          (\<forall>v \<in> set [Fin 1, Fin 1, Fin 1, Fin 1, Fin 1, Fin 1, Fin 1, Fin 1].
              \<exists>r. v = Fin r \<and> 0 \<le> r \<and> r \<le> 1)"
    by (elim exE conjE) blast
  have ws': "ws = [1, 1, 1, 0, 1, 0, 0, 0]" using ws ws_auto by simp
  have th: "0 \<le> theta ex_auto" "theta ex_auto \<le> 1" by (simp_all add: ex_auto_def)
  have lt: "np_min [1, 1, 1, 0, 1, 0, 0, 0] < np_max [1, 1, 1, 0, 1, 0, 0, 0]"
    by (simp add: np_min_def np_max_def)
  have "\<forall>v \<in> set [Fin 1, Fin 1, Fin 1, Fin 1, Fin 1, Fin 1, Fin 1, Fin 1].
              \<exists>r. v = Fin r \<and> 0 \<le> r \<and> r \<le> 1"
    using imp th lt unfolding ws' by blast
  then have "\<exists>r. [Fin 1, Fin 1, Fin 1, Fin 1, Fin 1, Fin 1, Fin 1, Fin 1] ! 4 = Fin r \<and> 0 \<le> r \<and> r \<le> 1"
    by simp
  then show ?thesis using h th lt by (intro conjI)
qed

subsection \<open>The thresholds\<close>

lemma relax_percents_unfold:
  "relax_percents p = (if 5 < p then (p - 5) # relax_percents (p - 5) else [])"
proof (cases "5 < p")
  case False
  then have "nat ((p + 4) div 5) \<le> 1" by simp
  then show ?thesis using False by (simp add: relax_percents_def)
next
  case True
  then have n: "nat ((p + 4) div 5) = Suc (nat ((p - 5 + 4) div 5))" "0 < nat ((p - 5 + 4) div 5)"
    by auto
  have "[1..<Suc (nat ((p - 5 + 4) div 5))] = 1 # map Suc [1..<nat ((p - 5 + 4) div 5)]"
    using n(2) by (metis One_nat_def Suc_lessI map_Suc_upt upt_conv_Cons less_Suc_eq not_less_eq upt_rec)
  then show ?thesis using True unfolding relax_percents_def n(1)
    by (simp add: comp_def algebra_simps)
qed

lemma relax_find:
  assumes "0 \<le> p" "p \<le> 100" "a \<le> b"
  shows "outcome (relax ws a b p) =
           (case find (\<lambda>b. b < a) (map (percentile_linear ws) (relax_percents p)) of
              Some b' \<Rightarrow> Inr b'
            | None \<Rightarrow> if 0 < p \<and> 5 dvd p then Inr (a * (9 / 10)) else Inl ValueError)"
  using assms
proof (induction ws a b p rule: relax.induct)
  case (1 ws a b p)
  show ?case
  proof (cases "p - 5 = 0 \<or> p - 5 < 0")
    case True
    then have "\<not> 5 < p" by linarith
    then have "relax_percents p = []" by (subst relax_percents_unfold) simp
    then show ?thesis using True 1(2-4)
      by (subst relax.simps) (auto simp: outcome_def Let_def)
  next
    case False
    then have p5: "5 < p" "p - 5 \<noteq> 0" "\<not> (p - 5 < 0 \<or> 100 < p - 5)" using 1(3) by auto
    have unf: "relax_percents p = (p - 5) # relax_percents (p - 5)"
      using p5(1) by (subst relax_percents_unfold) simp
    have dv: "(0 < p - 5 \<and> 5 dvd p - 5) = (0 < p \<and> 5 dvd p)"
      using p5(1) by presburger
    show ?thesis
    proof (cases "percentile_linear ws (p - 5) < a")
      case True
      then have "relax ws a (percentile_linear ws (p - 5)) (p - 5) = (None, percentile_linear ws (p - 5))"
        by (subst relax.simps) simp
      then show ?thesis using True p5 1(4) unfolding unf
        by (subst relax.simps) (simp add: outcome_def Let_def)
    next
      case F: False
      have ih: "outcome (relax ws a (percentile_linear ws (p - 5)) (p - 5)) =
           (case find (\<lambda>b. b < a) (map (percentile_linear ws) (relax_percents (p - 5))) of
              Some b' \<Rightarrow> Inr b'
            | None \<Rightarrow> if 0 < p - 5 \<and> 5 dvd p - 5 then Inr (a * (9 / 10)) else Inl ValueError)"
        using 1(1)[OF _ refl p5(2,3)] 1(2-4) p5 F by simp
      have "relax ws a b p = relax ws a (percentile_linear ws (p - 5)) (p - 5)"
        using p5 1(4) by (subst relax.simps) (simp add: Let_def)
      then show ?thesis using F ih unfolding unf dv by simp
    qed
  qed
qed

lemma percentile_linear_ge_min:
  assumes "ws \<noteq> []" "0 \<le> q" "q \<le> 100"
  shows "np_min ws \<le> percentile_linear ws q"
proof -
  let ?ys = "sort ws" and ?n = "length ws"
  let ?vi = "real (?n - 1) * real_of_int q / 100"
  let ?lo = "nat \<lfloor>?vi\<rfloor>"
  let ?hi = "min (?lo + 1) (?n - 1)"
  let ?g = "?vi - real ?lo"
  have n: "0 < ?n" using assms(1) by simp
  have vi0: "0 \<le> ?vi" using assms(2) by simp
  have "real_of_int q / 100 \<le> 1" using assms(3) by simp
  then have "real (?n - 1) * (real_of_int q / 100) \<le> real (?n - 1) * 1"
    by (intro mult_left_mono) auto
  then have vi1: "?vi \<le> real (?n - 1)" by simp
  have "\<lfloor>?vi\<rfloor> \<le> int (?n - 1)" using vi1 by (simp add: floor_le_iff)
  then have lo: "?lo < ?n" using n by linarith
  have "?hi \<le> ?n - 1" by (rule min.cobounded2)
  then have hi: "?hi < ?n" using n by linarith
  have "0 \<le> \<lfloor>?vi\<rfloor>" using vi0 by (simp only: zero_le_floor)
  then have fl: "real ?lo = real_of_int \<lfloor>?vi\<rfloor>" by (rule of_nat_nat)
  have "real_of_int \<lfloor>?vi\<rfloor> \<le> ?vi" by (rule of_int_floor_le)
  then have g0: "0 \<le> ?g" unfolding fl by linarith
  have "?vi < real_of_int \<lfloor>?vi\<rfloor> + 1" using floor_correct[of ?vi] by linarith
  then have g1: "?g \<le> 1" unfolding fl by linarith
  have mem: "?ys ! ?lo \<in> set ws" "?ys ! ?hi \<in> set ws"
    using lo hi by (metis length_sort nth_mem set_sort)+
  have m1: "np_min ws \<le> ?ys ! ?lo" and m2: "np_min ws \<le> ?ys ! ?hi"
    using mem by (simp_all add: np_min_def)
  have "?ys ! ?lo + (?ys ! ?hi - ?ys ! ?lo) * ?g = (1 - ?g) * ?ys ! ?lo + ?g * ?ys ! ?hi"
    by (simp add: algebra_simps)
  moreover have "0 \<le> 1 - ?g" using g1 by linarith
  then have "(1 - ?g) * np_min ws \<le> (1 - ?g) * ?ys ! ?lo"
    by (rule mult_left_mono[OF m1])
  moreover have "?g * np_min ws \<le> ?g * ?ys ! ?hi"
    by (rule mult_left_mono[OF m2 g0])
  moreover have "(1 - ?g) * np_min ws + ?g * np_min ws = np_min ws"
    by (simp add: algebra_simps)
  ultimately have "np_min ws \<le> ?ys ! ?lo + (?ys ! ?hi - ?ys ! ?lo) * ?g"
    by linarith
  then show ?thesis by (simp add: percentile_linear_def Let_def)
qed

lemma relax_percents_range:
  assumes "p \<le> 100" "q \<in> set (relax_percents p)"
  shows "0 \<le> q \<and> q \<le> 100"
  using assms by (auto simp: relax_percents_def)

lemma find_none_above_min:
  assumes "ws \<noteq> []" "a \<le> np_min ws" "p \<le> 100"
  shows "find (\<lambda>b. b < a) (map (percentile_linear ws) (relax_percents p)) = None"
proof -
  have "\<not> percentile_linear ws q < a" if "q \<in> set (relax_percents p)" for q
    using percentile_linear_ge_min[OF assms(1), of q] relax_percents_range[OF assms(3) that] assms(2)
    by linarith
  then show ?thesis by (auto simp: find_None_iff)
qed

text \<open>
  C10. The relaxation loop is the total function \<open>relax\<close>. Take a run in which line 99 has
  computed \<open>beta = np.percentile(weighted_score, percent)\<close> and no score is below \<open>alpha\<close>, so
  that the loop is entered and \<open>beta\<close> never gets below \<open>alpha\<close>. Then for every percent that is
  a positive multiple of 5 the loop ends in the fallback \<open>beta = 0.9 * alpha\<close>; for any other
  percent the counter steps over 0, the fallback is not taken and the loop ends in the
  ValueError of \<open>np.percentile\<close> called with a negative percentile.
\<close>

theorem relax_fallback_or_negative_percentile:
  assumes "ws \<noteq> []" "a \<le> np_min ws" "np_percentile ws p = Inr b"
  shows "(0 < p \<and> 5 dvd p \<longrightarrow> relax ws a b p = (None, a * (9 / 10))) \<and>
         (\<not> (0 < p \<and> 5 dvd p) \<longrightarrow> fst (relax ws a b p) = Some ValueError)"
proof -
  have p: "0 \<le> p" "p \<le> 100" and b: "b = percentile_linear ws p"
    using assms(3) by (auto simp: np_percentile_def split: if_splits)
  have ab: "a \<le> b"
    using percentile_linear_ge_min[OF assms(1) p] assms(2) b by linarith
  have "outcome (relax ws a b p) =
          (if 0 < p \<and> 5 dvd p then Inr (a * (9 / 10)) else Inl ValueError)"
    using relax_find[OF p ab, of ws] find_none_above_min[OF assms(1,2) p(2)] by simp
  then show ?thesis
    by (auto simp: outcome_def split: prod.splits option.splits if_splits)
qed

text \<open>C10 on four scores 0.5 with \<open>alpha = 0.5\<close>: percent 45 ends in the fallback 0.45,
  percent 47 in the ValueError.\<close>

theorem relax_fallback_or_negative_percentile_witness:
  "[1/2, 1/2, 1/2, 1/2::real] \<noteq> [] \<and> (1/2::real) \<le> np_min [1/2, 1/2, 1/2, 1/2] \<and>
   np_percentile [1/2, 1/2, 1/2, 1/2] 45 = Inr (1/2) \<and>
   np_percentile [1/2, 1/2, 1/2, 1/2] 47 = Inr (1/2) \<and>
   relax [1/2, 1/2, 1/2, 1/2] (1/2) (1/2) 45 = (None, 9/20) \<and>
   fst (relax [1/2, 1/2, 1/2, 1/2] (1/2) (1/2) 47) = Some ValueError"
proof -
  have h: "[1/2, 1/2, 1/2, 1/2::real] \<noteq> []" "(1/2::real) \<le> np_min [1/2, 1/2, 1/2, 1/2]"
    by (simp_all add: np_min_def)
  have p1: "np_percentile [1/2, 1/2, 1/2, 1/2] 45 = Inr (1/2)"
    and p2: "np_percentile [1/2, 1/2, 1/2, 1/2] 47 = Inr (1/2)"
    by (simp_all add: np_percentile_def percentile_linear_def)
  have "relax [1/2, 1/2, 1/2, 1/2] (1/2) (1/2) 45 = (None, 9/20)"
    using relax_fallback_or_negative_percentile[OF h p1] by simp
  moreover have "fst (relax [1/2, 1/2, 1/2, 1/2] (1/2) (1/2) 47) = Some ValueError"
    using relax_fallback_or_negative_percentile[OF h p2] by simp
  ultimately show ?thesis using h p1 p2 by (intro conjI)
qed

lemma relax_exit: "b < a \<Longrightarrow> relax ws a b p = (None, b)"
  by (subst relax.simps) simp

lemma derive_spec_beta:
  "(case (if np_median ws < a then Inr (np_median ws) else np_percentile ws p) of
      Inl e \<Rightarrow> Inl e
    | Inr b0 \<Rightarrow> outcome (relax ws a b0 p)) = spec_beta ws a p"
proof (cases "np_median ws < a")
  case True
  then show ?thesis by (simp add: spec_beta_def relax_exit outcome_def)
next
  case m: False
  show ?thesis
  proof (cases "p < 0 \<or> 100 < p")
    case True
    then show ?thesis using m by (simp add: spec_beta_def np_percentile_def)
  next
    case False
    then have p: "0 \<le> p" "p \<le> 100" by simp_all
    show ?thesis
    proof (cases "percentile_linear ws p < a")
      case True
      then show ?thesis using m False
        by (simp add: spec_beta_def np_percentile_def relax_exit outcome_def)
    next
      case F: False
      then have "a \<le> percentile_linear ws p" by simp
      from relax_find[OF p this, of ws] show ?thesis using m False F
        by (simp add: spec_beta_def np_percentile_def)
    qed
  qed
qed

lemma determine_trainset_Num:
  assumes "cal_weighted_score iforest s = Inr ws"
    and "resolve_alpha (alpha s) (take (length (anomalies s)) ws) (np_min ws) (gailv s) = Num a"
  shows "determine_trainset iforest s =
     (case (if np_median ws < a then Inr (np_median ws) else np_percentile ws (percent s)) of
        Inl e \<Rightarrow> (Inl e, s\<lparr>alpha := Num a\<rparr>)
      | Inr b0 \<Rightarrow>
          (case relax ws a b0 (percent s) of
             (Some e, b) \<Rightarrow> (Inl e, s\<lparr>alpha := Num a, beta := Num b\<rparr>)
           | (None, b) \<Rightarrow>
               (if b < a then (Inr (assemble s ws a b), s\<lparr>alpha := Num a, beta := Num b\<rparr>)
                else (Inl AssertionError, s\<lparr>alpha := Num a, beta := Num b\<rparr>))))"
  unfolding determine_trainset_def Let_def assms(1)
  by (simp add: assms(2) split: sum.splits prod.splits option.splits)

text \<open>
  C8. With \<open>alpha\<close> at \<open>'auto'\<close> (and at least one anomaly, so that the mean is a number),
  \<open>determine_trainset\<close> sets \<open>alpha = ((mean(anomaly scores) + min(all scores)) / 2) * gailv\<close>,
  and \<open>beta\<close> is what the specification's derivation \<open>spec_beta\<close> gives for this \<open>alpha\<close>: the
  median if it is below \<open>alpha\<close>, otherwise the configured percentile, lowered by 5 while
  \<open>beta \<ge> alpha\<close>, and \<open>0.9 * alpha\<close> when the percentile reaches 0. Where \<open>spec_beta\<close> fails
  (a percentile outside [0, 100]), so does \<open>determine_trainset\<close>, with the same error.
\<close>

theorem determine_trainset_thresholds:
  assumes "cal_weighted_score iforest s = Inr ws" "alpha s = Auto" "anomalies s \<noteq> []"
  shows "alpha (snd (determine_trainset iforest s)) =
           Num (((np_mean (take (length (anomalies s)) ws) + np_min ws) / 2) * gailv s) \<and>
         (case spec_beta ws (((np_mean (take (length (anomalies s)) ws) + np_min ws) / 2) * gailv s)
                 (percent s) of
            Inl e \<Rightarrow> fst (determine_trainset iforest s) = Inl e
          | Inr b \<Rightarrow> beta (snd (determine_trainset iforest s)) = Num b)"
proof -
  let ?a = "((np_mean (take (length (anomalies s)) ws) + np_min ws) / 2) * gailv s"
  have "ws \<noteq> []" by (rule cal_weighted_score_nonempty[OF assms(1)])
  then have "take (length (anomalies s)) ws \<noteq> []" using assms(3) by simp
  then have ra: "resolve_alpha (alpha s) (take (length (anomalies s)) ws) (np_min ws) (gailv s) = Num ?a"
    using assms(2) by (simp add: resolve_alpha_def)
  note dt = determine_trainset_Num[OF assms(1) ra]
  note sb = derive_spec_beta[of ws ?a "percent s", symmetric]
  show ?thesis
    unfolding dt sb
    by (auto simp: outcome_def split: sum.splits prod.splits option.splits if_splits)
qed

text \<open>C8 on \<open>ex_auto\<close>: \<open>alpha = (1 + 0) / 2\<close>, the median 0.5 is not below it, the 45th
  percentile 0.15 is.\<close>

theorem determine_trainset_thresholds_witness:
  "cal_weighted_score forest0 ex_auto = Inr [1, 1, 1, 0, 1, 0, 0, 0] \<and>
   alpha ex_auto = Auto \<and> anomalies ex_auto \<noteq> [] \<and>
   alpha (snd (determine_trainset forest0 ex_auto)) = Num (1 / 2) \<and>
   spec_beta [1, 1, 1, 0, 1, 0, 0, 0] (1 / 2) 45 = Inr (3 / 20) \<and>
   beta (snd (determine_trainset forest0 ex_auto)) = Num (3 / 20)"
proof -
  note h = ws_auto
  have h2: "alpha ex_auto = Auto" "anomalies ex_auto \<noteq> []" by (simp_all add: ex_auto_def)
  have a: "((np_mean (take (length (anomalies ex_auto)) [1, 1, 1, 0, 1, 0, 0, 0])
             + np_min [1, 1, 1, 0, 1, 0, 0, 0]) / 2) * gailv ex_auto = 1 / 2"
    by (simp add: ex_auto_def np_mean_def np_min_def)
  have p: "percent ex_auto = 45" by (simp add: ex_auto_def)
  have sb: "spec_beta [1, 1, 1, 0, 1, 0, 0, 0] (1 / 2) 45 = Inr (3 / 20)"
    by (simp add: spec_beta_def np_median_def percentile_linear_def)
  from determine_trainset_thresholds[OF h h2, unfolded a p sb]
  have "alpha (snd (determine_trainset forest0 ex_auto)) = Num (1 / 2)"
       "beta (snd (determine_trainset forest0 ex_auto)) = Num (3 / 20)"
    by simp_all
  then show ?thesis using h h2 sb by (intro conjI)
qed

lemma ws_flat: "cal_weighted_score forest0 ex_flat = Inr [0, 0, 0, 0]"
  by (simp add: cal_weighted_score_def ex_flat_def forest0_def minmax_scale_def Let_def
      np_min_def np_max_def cal_similarity_score_def square_dist_def)

text \<open>
  C2 fails on the code. On \<open>ex_flat\<close> all weighted scores are equal (0): \<open>alpha\<close> is 0, every
  percentile is 0, the loop runs down to the fallback \<open>beta = 0.9 * 0 = 0\<close>, and the assertion
  \<open>beta < alpha\<close> fires.
\<close>

theorem determine_trainset_flat_scores:
  "determine_trainset forest0 ex_flat =
     (Inl AssertionError, ex_flat\<lparr>alpha := Num 0, beta := Num 0\<rparr>)"
  unfolding determine_trainset_def ws_flat
  by (simp add: Let_def resolve_alpha_def ex_flat_def np_mean_def np_min_def np_median_def
      np_percentile_def percentile_linear_def relax.simps)

subsection \<open>Repeated calls\<close>

lemma cal_weighted_score_thresholds [simp]:
  "cal_weighted_score iforest (s\<lparr>alpha := t\<rparr>) = cal_weighted_score iforest s"
  "cal_weighted_score iforest (s\<lparr>beta := u\<rparr>) = cal_weighted_score iforest s"
  unfolding cal_weighted_score_def Let_def by (simp_all cong: sum.case_cong if_cong)

lemma assemble_thresholds [simp]:
  "assemble (s\<lparr>alpha := t\<rparr>) = assemble s"
  "assemble (s\<lparr>beta := u\<rparr>) = assemble s"
  by (simp_all add: assemble_def fun_eq_iff)

lemma resolve_alpha_idem:
  "resolve_alpha (resolve_alpha t xs m g) ys m' g' = resolve_alpha t xs m g"
  by (simp add: resolve_alpha_def split: thr.splits)

lemma resolve_alpha_not_Auto: "resolve_alpha t xs m g \<noteq> Auto"
  by (simp add: resolve_alpha_def split: thr.splits)

lemma resolve_alpha_keeps: "t \<noteq> Auto \<Longrightarrow> resolve_alpha t xs m g = t"
  by (simp add: resolve_alpha_def split: thr.splits)

lemma determine_trainset_Nan:
  assumes "cal_weighted_score iforest s = Inr ws"
    and "resolve_alpha (alpha s) (take (length (anomalies s)) ws) (np_min ws) (gailv s) = Nan"
  shows "determine_trainset iforest s =
     (case np_percentile ws (percent s) of
        Inl e \<Rightarrow> (Inl e, s\<lparr>alpha := Nan\<rparr>)
      | Inr b0 \<Rightarrow> (Inl AssertionError, s\<lparr>alpha := Nan, beta := Num b0\<rparr>))"
  unfolding determine_trainset_def Let_def assms(1)
  by (simp add: assms(2) split: sum.splits prod.splits option.splits)

lemma determine_trainset_Num_again:
  assumes ws: "cal_weighted_score iforest s = Inr ws"
    and ra: "resolve_alpha (alpha s) (take (length (anomalies s)) ws) (np_min ws) (gailv s) = Num a"
  shows "determine_trainset iforest (snd (determine_trainset iforest s)) = determine_trainset iforest s"
proof -
  note d1 = determine_trainset_Num[OF ws ra]
  let ?E = "if np_median ws < a then Inr (np_median ws) else np_percentile ws (percent s)"
  have unf: "determine_trainset iforest u =
     (case ?E of
        Inl e \<Rightarrow> (Inl e, u\<lparr>alpha := Num a\<rparr>)
      | Inr b0 \<Rightarrow>
          (case relax ws a b0 (percent s) of
             (Some e, b) \<Rightarrow> (Inl e, u\<lparr>alpha := Num a, beta := Num b\<rparr>)
           | (None, b) \<Rightarrow>
               (if b < a then (Inr (assemble s ws a b), u\<lparr>alpha := Num a, beta := Num b\<rparr>)
                else (Inl AssertionError, u\<lparr>alpha := Num a, beta := Num b\<rparr>))))"
    if "u = s\<lparr>alpha := Num a\<rparr> \<or> u = s\<lparr>alpha := Num a, beta := b'\<rparr>" for u b'
  proof -
    have w: "cal_weighted_score iforest u = Inr ws" using that ws by auto
    have r: "resolve_alpha (alpha u) (take (length (anomalies u)) ws) (np_min ws) (gailv u) = Num a"
      using that by (auto simp: resolve_alpha_def)
    have f: "percent u = percent s" "assemble u = assemble s" using that by auto
    show ?thesis unfolding determine_trainset_Num[OF w r] f ..
  qed
  show ?thesis
  proof (cases ?E)
    case (Inl e)
    have "determine_trainset iforest s = (Inl e, s\<lparr>alpha := Num a\<rparr>)"
      unfolding d1 Inl by simp
    moreover have "determine_trainset iforest (s\<lparr>alpha := Num a\<rparr>) = (Inl e, s\<lparr>alpha := Num a\<rparr>)"
      unfolding unf[of "s\<lparr>alpha := Num a\<rparr>", OF disjI1[OF refl]] Inl by simp
    ultimately show ?thesis by simp
  next
    case (Inr b0)
    obtain eo b where rl: "relax ws a b0 (percent s) = (eo, b)" by (cases "relax ws a b0 (percent s)")
    let ?u = "s\<lparr>alpha := Num a, beta := Num b\<rparr>"
    have s1: "snd (determine_trainset iforest s) = ?u"
      unfolding d1 Inr by (simp add: rl split: option.splits)
    have "determine_trainset iforest ?u = determine_trainset iforest s"
      unfolding unf[of ?u "Num b", OF disjI2[OF refl]] d1 Inr
      by (simp add: rl split: option.splits)
    then show ?thesis unfolding s1 .
  qed
qed

lemma determine_trainset_Nan_again:
  assumes ws: "cal_weighted_score iforest s = Inr ws"
    and ra: "resolve_alpha (alpha s) (take (length (anomalies s)) ws) (np_min ws) (gailv s) = Nan"
  shows "determine_trainset iforest (snd (determine_trainset iforest s)) = determine_trainset iforest s"
proof -
  note d1 = determine_trainset_Nan[OF ws ra]
  have unf: "determine_trainset iforest u =
     (case np_percentile ws (percent s) of
        Inl e \<Rightarrow> (Inl e, u\<lparr>alpha := Nan\<rparr>)
      | Inr b0 \<Rightarrow> (Inl AssertionError, u\<lparr>alpha := Nan, beta := Num b0\<rparr>))"
    if "u = s\<lparr>alpha := Nan\<rparr> \<or> u = s\<lparr>alpha := Nan, beta := b'\<rparr>" for u b'
  proof -
    have w: "cal_weighted_score iforest u = Inr ws" using that ws by auto
    have r: "resolve_alpha (alpha u) (take (length (anomalies u)) ws) (np_min ws) (gailv u) = Nan"
      using that by (auto simp: resolve_alpha_def)
    have f: "percent u = percent s" using that by auto
    show ?thesis unfolding determine_trainset_Nan[OF w r] f ..
  qed
  show ?thesis
  proof (cases "np_percentile ws (percent s)")
    case (Inl e)
    have "determine_trainset iforest s = (Inl e, s\<lparr>alpha := Nan\<rparr>)"
      unfolding d1 Inl by simp
    moreover have "determine_trainset iforest (s\<lparr>alpha := Nan\<rparr>) = (Inl e, s\<lparr>alpha := Nan\<rparr>)"
      unfolding unf[of "s\<lparr>alpha := Nan\<rparr>", OF disjI1[OF refl]] Inl by simp
    ultimately show ?thesis by simp
  next
    case (Inr b0)
    let ?u = "s\<lparr>alpha := Nan, beta := Num b0\<rparr>"
    have s1: "snd (determine_trainset iforest s) = ?u"
      unfolding d1 Inr by simp
    have "determine_trainset iforest ?u = determine_trainset iforest s"
      unfolding unf[of ?u "Num b0", OF disjI2[OF refl]] d1 Inr by simp
    then show ?thesis unfolding s1 .
  qed
qed

lemma determine_trainset_again:
  "determine_trainset iforest (snd (determine_trainset iforest s)) = determine_trainset iforest s"
proof (cases "cal_weighted_score iforest s")
  case (Inl e)
  then show ?thesis by (simp add: determine_trainset_def)
next
  case (Inr ws)
  show ?thesis
  proof (cases "resolve_alpha (alpha s) (take (length (anomalies s)) ws) (np_min ws) (gailv s)")
    case Auto
    then show ?thesis using resolve_alpha_not_Auto by metis
  next
    case (Num a)
    show ?thesis by (rule determine_trainset_Num_again[OF Inr Num])
  next
    case Nan
    show ?thesis by (rule determine_trainset_Nan_again[OF Inr Nan])
  qed
qed

text \<open>
  C3. Two calls of \<open>determine_trainset\<close> in a row on the same instance return the same
  result: the same \<open>(X_train, y_train, weights)\<close>, or the same error.
\<close>

theorem determine_trainset_twice:
  assumes "determine_trainset iforest s = (r1, s1)" "determine_trainset iforest s1 = (r2, s2)"
  shows "r2 = r1"
  using assms determine_trainset_again[of iforest s] by simp

text \<open>C3 on \<open>ex_auto\<close>: the second call runs on the instance the first call left.\<close>

theorem determine_trainset_twice_witness:
  "determine_trainset forest0 ex_auto =
     (Inr ([[1], [1], [-1], [1], [-2], [0], [0], [0]], [1, 1, 1, 1, 0, 0, 0, 0],
           [Fin 1, Fin 1, Fin 1, Fin 1, Fin 1, Fin 1, Fin 1, Fin 1]),
      ex_auto\<lparr>alpha := Num (1/2), beta := Num (3/20)\<rparr>) \<and>
   (\<exists>s2. determine_trainset forest0 (ex_auto\<lparr>alpha := Num (1/2), beta := Num (3/20)\<rparr>) =
     (Inr ([[1], [1], [-1], [1], [-2], [0], [0], [0]], [1, 1, 1, 1, 0, 0, 0, 0],
           [Fin 1, Fin 1, Fin 1, Fin 1, Fin 1, Fin 1, Fin 1, Fin 1]), s2))"
proof -
  note h = dt_auto
  obtain r2 s2 where h2: "determine_trainset forest0 (ex_auto\<lparr>alpha := Num (1/2), beta := Num (3/20)\<rparr>) = (r2, s2)"
    by (cases "determine_trainset forest0 (ex_auto\<lparr>alpha := Num (1/2), beta := Num (3/20)\<rparr>)")
  from determine_trainset_twice[OF h h2] h2
  have "determine_trainset forest0 (ex_auto\<lparr>alpha := Num (1/2), beta := Num (3/20)\<rparr>) =
     (Inr ([[1], [1], [-1], [1], [-2], [0], [0], [0]], [1, 1, 1, 1, 0, 0, 0, 0],
           [Fin 1, Fin 1, Fin 1, Fin 1, Fin 1, Fin 1, Fin 1, Fin 1]), s2)"
    by simp
  then show ?thesis using h by (intro conjI exI[of _ s2])
qed

lemma determine_trainset_frame:
  "snd (determine_trainset iforest s) =
     s\<lparr>alpha := alpha (snd (determine_trainset iforest s)),
       beta := beta (snd (determine_trainset iforest s))\<rparr>"
  unfolding determine_trainset_def Let_def
  by (simp split: sum.splits thr.splits prod.splits option.splits)

lemma determine_trainset_alpha_kept:
  "alpha s \<noteq> Auto \<Longrightarrow> alpha (snd (determine_trainset iforest s)) = alpha s"
  unfolding determine_trainset_def Let_def
  by (simp add: resolve_alpha_keeps split: sum.splits thr.splits prod.splits option.splits)

lemma predict_state: "fst (snd (predict clf iforest s m)) = snd (determine_trainset iforest s)"
  unfolding predict_def
  by (simp split: sum.splits prod.splits)

lemma repr_state: "snd (repr iforest s) = snd (determine_trainset iforest s)"
  unfolding repr_def Let_def
  by (simp split: sum.splits prod.splits)

lemma call_state:
  "fst (call clf iforest meth (s, m)) = snd (determine_trainset iforest s)"
  by (cases meth) (simp_all add: predict_state repr_state)

lemma calls_state:
  "fst (calls clf iforest ms (s, m)) = (if ms = [] then s else snd (determine_trainset iforest s))"
proof (induction ms rule: rev_induct)
  case Nil
  then show ?case by (simp add: calls_def)
next
  case (snoc meth ms)
  obtain s' m' where sm: "calls clf iforest ms (s, m) = (s', m')"
    by (cases "calls clf iforest ms (s, m)")
  have s': "s' = (if ms = [] then s else snd (determine_trainset iforest s))"
    using snoc sm by simp
  have "fst (calls clf iforest (ms @ [meth]) (s, m)) = snd (determine_trainset iforest s')"
    using sm by (simp add: calls_def call_state)
  also have "\<dots> = snd (determine_trainset iforest s)"
    unfolding s' by (simp add: determine_trainset_again)
  finally show ?case by simp
qed

text \<open>
  C4. After any sequence of calls of \<open>determine_trainset\<close>, \<open>predict\<close> and \<open>__repr__\<close> the
  instance differs from the constructed one in \<open>alpha\<close> and \<open>beta\<close> at most; an \<open>alpha\<close> given to
  the constructor is never changed; and the instance after a sequence of calls is the
  instance after its first call, whichever method that is (\<open>__repr__\<close> included): the
  thresholds are set by the first call and every later call leaves them as they are.
\<close>

theorem only_thresholds_change:
  "fst (calls clf iforest ms (s, m)) =
     s\<lparr>alpha := alpha (fst (calls clf iforest ms (s, m))),
       beta := beta (fst (calls clf iforest ms (s, m)))\<rparr> \<and>
   (alpha s = Auto \<or> alpha (fst (calls clf iforest ms (s, m))) = alpha s) \<and>
   fst (calls clf iforest (meth # ms) (s, m)) = fst (call clf iforest meth (s, m))"
proof -
  have a: "fst (calls clf iforest ms (s, m)) =
     s\<lparr>alpha := alpha (fst (calls clf iforest ms (s, m))),
       beta := beta (fst (calls clf iforest ms (s, m)))\<rparr>"
    unfolding calls_state using determine_trainset_frame[of iforest s] by simp
  have b: "alpha s = Auto \<or> alpha (fst (calls clf iforest ms (s, m))) = alpha s"
    unfolding calls_state using determine_trainset_alpha_kept[of s iforest] by auto
  have c: "fst (calls clf iforest (meth # ms) (s, m)) = fst (call clf iforest meth (s, m))"
    unfolding calls_state call_state by simp
  show ?thesis using a b c by (intro conjI)
qed

text \<open>C4 on \<open>ex_auto\<close>: after \<open>__repr__\<close>, \<open>predict\<close> and \<open>determine_trainset\<close> the instance is
  the one \<open>__repr__\<close> left.\<close>

theorem only_thresholds_change_witness:
  "fst (calls ex_clf forest0 [Repr, Predict, DetermineTrainset] (ex_auto, ())) =
     ex_auto\<lparr>alpha := Num (1 / 2), beta := Num (3 / 20)\<rparr>"
proof -
  have "fst (calls ex_clf forest0 (Repr # [Predict, DetermineTrainset]) (ex_auto, ())) =
          fst (call ex_clf forest0 Repr (ex_auto, ()))"
    using only_thresholds_change[of ex_clf forest0 "[Predict, DetermineTrainset]" ex_auto "()" Repr]
    by (elim conjE)
  then show ?thesis by (simp add: repr_state dt_auto)
qed

subsection \<open>Degenerate inputs\<close>

lemma ws_no_unlabel: "cal_weighted_score forest0 ex_no_unlabel = Inr [1, 1, 0, 1, 1, 0]"
  by (simp add: exp_gaps eps64_small cal_weighted_score_def ex_no_unlabel_def forest0_def
      minmax_scale_def Let_def np_min_def np_max_def cal_similarity_score_def square_dist_def
      diff_divide_distrib[symmetric] power2_eq_square)

lemma dt_no_unlabel:
  "determine_trainset forest0 ex_no_unlabel =
     (Inr ([[1, 1], [1, 1], [1, -1], [-1, -1], [-1, -1], [-1, 1]], [1, 1, 1, 1, 1, 1],
           [Fin 1, Fin 1, Fin 1, Fin 1, Fin 1, Fin 1]),
      ex_no_unlabel\<lparr>alpha := Num (1 / 3), beta := Num (1 / 4)\<rparr>)"
  unfolding determine_trainset_def ws_no_unlabel
  by (simp add: Let_def resolve_alpha_def ex_no_unlabel_def np_mean_def np_min_def np_median_def np_max_def
      np_percentile_def percentile_linear_def relax.simps assemble_def mask_select_def np_divide_def)

lemma ws_zero_var: "cal_weighted_score forest0 ex_zero_var = Inr [1, 1, 1, 0, 1, 0, 0, 0]"
  by (simp add: exp_gaps eps64_small cal_weighted_score_def ex_zero_var_def forest0_def
      minmax_scale_def Let_def np_min_def np_max_def cal_similarity_score_def square_dist_def
      diff_divide_distrib[symmetric])

lemma dt_zero_var:
  "determine_trainset forest0 ex_zero_var =
     (Inr ([[1, 0], [1, 0], [-1, 0], [1, 0], [-2, 0], [0, 0], [0, 0], [0, 0]],
           [1, 1, 1, 1, 0, 0, 0, 0],
           [Fin 1, Fin 1, Fin 1, Fin 1, Fin 1, Fin 1, Fin 1, Fin 1]),
      ex_zero_var\<lparr>alpha := Num (1 / 2), beta := Num (3 / 20)\<rparr>)"
  unfolding determine_trainset_def ws_zero_var
  by (simp add: Let_def resolve_alpha_def ex_zero_var_def np_mean_def np_min_def np_median_def np_max_def
      np_percentile_def percentile_linear_def relax.simps assemble_def mask_select_def np_divide_def)

lemma ws_no_anomaly: "cal_weighted_score forest0 ex_no_anomaly = Inr [1, 1, 1, 0, 1, 0, 0, 0]"
  by (simp add: exp_gaps eps64_small cal_weighted_score_def ex_no_anomaly_def forest0_def
      minmax_scale_def Let_def np_min_def np_max_def cal_similarity_score_def square_dist_def
      diff_divide_distrib[symmetric])

text \<open>Without anomalies \<open>alpha\<close> becomes NaN, \<open>beta\<close> the configured percentile, and the
  assertion \<open>beta < alpha\<close> fails.\<close>

lemma dt_no_anomaly:
  "determine_trainset forest0 ex_no_anomaly =
     (Inl AssertionError, ex_no_anomaly\<lparr>alpha := Nan, beta := Num (3 / 20)\<rparr>)"
  unfolding determine_trainset_def ws_no_anomaly
  by (simp add: Let_def resolve_alpha_def ex_no_anomaly_def np_percentile_def percentile_linear_def)

text \<open>
  C9 as stated fails on the code, for two of its three kinds of input. An empty unlabeled set
  (the arguments behind \<open>ex_no_unlabel\<close>) and a feature without variance (the arguments behind
  \<open>ex_zero_var\<close>, whose second feature is 7 in every row) both pass the constructor, and
  \<open>determine_trainset\<close> returns a training set on either: no error is raised anywhere.
\<close>

theorem degenerate_inputs_counterexample:
  "init (answers [[1, 1 / 3], [-1, - (1 / 3)]] 5)
     (ex_args 2 [[1, 1], [1, 1], [1, -1], [-1, -1], [-1, -1], [-1, 1]] [] Auto Auto)
     = Inr ex_no_unlabel \<and>
   determine_trainset forest0 ex_no_unlabel =
     (Inr ([[1, 1], [1, 1], [1, -1], [-1, -1], [-1, -1], [-1, 1]], [1, 1, 1, 1, 1, 1],
           [Fin 1, Fin 1, Fin 1, Fin 1, Fin 1, Fin 1]),
      ex_no_unlabel\<lparr>alpha := Num (1 / 3), beta := Num (1 / 4)\<rparr>) \<and>
   init (answers [[1, 0], [-1, 0]] 1)
     (ex_args 2 [[1, 7], [1, 7], [-1, 7]] [[-2, 7], [1, 7], [0, 7], [0, 7], [0, 7]] Auto Auto)
     = Inr ex_zero_var \<and>
   determine_trainset forest0 ex_zero_var =
     (Inr ([[1, 0], [1, 0], [-1, 0], [1, 0], [-2, 0], [0, 0], [0, 0], [0, 0]],
           [1, 1, 1, 1, 0, 0, 0, 0],
           [Fin 1, Fin 1, Fin 1, Fin 1, Fin 1, Fin 1, Fin 1, Fin 1]),
      ex_zero_var\<lparr>alpha := Num (1 / 2), beta := Num (3 / 20)\<rparr>)"
  by (intro conjI) (rule init_examples dt_no_unlabel dt_zero_var)+

lemma init_accepts:
  assumes "arg_anomalies a = Array2 d A" "arg_unlabel a = Array2 d U" "0 < d" "A @ U \<noteq> []"
  shows "(\<exists>s. init get_cluster_centers a = Inr s \<and>
              length (anomalies s) = length A \<and> length (unlabel s) = length U) \<or>
         (\<exists>anoms e. get_cluster_centers anoms (arg_n_clusters a) (arg_cluster_algo a) = Inl e \<and>
              init get_cluster_centers a = Inl e)"
proof -
  let ?scaled = "map (\<lambda>r. map (\<lambda>j. (r ! j - np_mean (column (A @ U) j))
                                       / column_scale (column (A @ U) j)) [0..<d]) (A @ U)"
  have sc: "standard_scaler (Array2 d (A @ U)) = Inr ?scaled"
    using assms(3,4) by (simp add: standard_scaler_def)
  show ?thesis
  proof (cases "get_cluster_centers (take (length A) ?scaled) (arg_n_clusters a) (arg_cluster_algo a)")
    case (Inl e)
    then have "init get_cluster_centers a = Inl e"
      using sc by (simp add: init_def assms(1,2) Let_def)
    then show ?thesis using Inl by blast
  next
    case (Inr r)
    obtain cs score where r: "r = (cs, score)" by (cases r)
    have "\<exists>s. init get_cluster_centers a = Inr s \<and> length (anomalies s) = length A \<and>
               length (unlabel s) = length U"
      using sc Inr r by (simp add: init_def assms(1,2) Let_def)
    then show ?thesis by simp
  qed
qed

text \<open>A one-dimensional array for either set (a plain list of numbers, the empty list among
  them) does not get past line 42.\<close>

lemma init_one_dimensional:
  assumes "arg_anomalies a = Array1 xs \<or> arg_unlabel a = Array1 ys"
  shows "init get_cluster_centers a = Inl ValueError"
proof (cases "arg_anomalies a")
  case (Array1 x1)
  then show ?thesis
    by (cases "arg_unlabel a") (simp_all add: init_def standard_scaler_def)
next
  case (Array2 d rows)
  then show ?thesis using assms by (auto simp: init_def)
qed

lemma np_mean_constant:
  assumes "col \<noteq> []" "\<forall>x \<in> set col. x = c"
  shows "np_mean col = c"
proof -
  have "col = replicate (length col) c"
    using assms(2) by (simp add: replicate_length_same)
  then have "sum_list col = real (length col) * c"
    by (metis sum_list_replicate)
  then show ?thesis using assms(1) by (simp add: np_mean_def)
qed

lemma column_scale_constant:
  assumes "col \<noteq> []" "\<forall>x \<in> set col. x = c"
  shows "column_scale col = 1"
proof -
  have m: "np_mean col = c" using assms by (rule np_mean_constant)
  have z: "map (\<lambda>x. (x - c)\<^sup>2) col = map (\<lambda>x. 0) col" using assms(2) by simp
  have "sum_list (map (\<lambda>x. (x - c)\<^sup>2) col) = 0" unfolding z by simp
  then have "np_var col = 0" unfolding np_var_def m by (simp add: np_mean_def)
  then show ?thesis by (simp add: column_scale_def Let_def)
qed

lemma standard_scaler_constant:
  assumes "rows \<noteq> []" "j < d" "\<forall>r \<in> set rows. r ! j = c"
  shows "column_scale (column rows j) = 1 \<and>
         (\<exists>scaled. standard_scaler (Array2 d rows) = Inr scaled \<and> length scaled = length rows)"
proof -
  have "column rows j \<noteq> []" "\<forall>x \<in> set (column rows j). x = c"
    using assms(1,3) by (auto simp: column_def)
  then have "column_scale (column rows j) = 1" by (rule column_scale_constant)
  moreover have "\<exists>scaled. standard_scaler (Array2 d rows) = Inr scaled \<and> length scaled = length rows"
    using assms(1,2) by (simp add: standard_scaler_def)
  ultimately show ?thesis by simp
qed

lemma determine_trainset_no_unlabel:
  assumes "unlabel s = []" "determine_trainset iforest s = (Inr (X, y, w), s')"
  shows "X = anomalies s \<and> y = replicate (length (anomalies s)) 1 \<and>
         w = replicate (length (anomalies s)) (Fin 1)"
proof -
  from assms(2) obtain ws a b where
    ws: "cal_weighted_score iforest s = Inr ws" and
    r: "(X, y, w) = assemble s ws a b"
    by (rule determine_trainset_Inr)
  have "length ws = length (anomalies s)" using cal_weighted_score_length[OF ws] assms(1) by simp
  then show ?thesis
    using r[unfolded assemble_eq[OF cal_weighted_score_length[OF ws]]] assms(1)
    by (simp add: ptt_index_def rlb_index_def)
qed

lemma determine_trainset_no_anomaly:
  assumes "anomalies s = []" "alpha s = Auto"
  shows "\<exists>e. fst (determine_trainset iforest s) = Inl e"
proof (cases "cal_weighted_score iforest s")
  case (Inl e)
  then show ?thesis by (simp add: determine_trainset_def)
next
  case (Inr ws)
  have "resolve_alpha (alpha s) (take (length (anomalies s)) ws) (np_min ws) (gailv s) = Nan"
    using assms by (simp add: resolve_alpha_def)
  from determine_trainset_Nan[OF Inr this] show ?thesis
    by (simp split: sum.splits)
qed

text \<open>
  C9, as the code behaves. The module checks none of these inputs itself. The constructor
  accepts any two two-dimensional arrays with the same positive number of columns and at
  least one row between them, unless the cluster finder fails: neither set is checked for
  emptiness and no feature for its variance. A feature that is constant over all rows is
  divided by 1 by the scaler instead of its standard deviation 0. With an empty unlabeled set
  \<open>determine_trainset\<close> runs as usual, and when it returns, the training set is the anomaly
  rows, each labelled 1 with weight 1.0. On an instance without anomalies whose \<open>alpha\<close> is
  \<open>'auto'\<close>, \<open>determine_trainset\<close> raises.
\<close>

theorem degenerate_inputs_accepted:
  "(arg_anomalies args = Array2 d A \<and> arg_unlabel args = Array2 d U \<and> 0 < d \<and> A @ U \<noteq> [] \<longrightarrow>
      (\<exists>s0. init get_cluster_centers args = Inr s0 \<and>
            length (anomalies s0) = length A \<and> length (unlabel s0) = length U) \<or>
      (\<exists>anoms e. get_cluster_centers anoms (arg_n_clusters args) (arg_cluster_algo args) = Inl e \<and>
            init get_cluster_centers args = Inl e)) \<and>
   (rows \<noteq> [] \<and> j < k \<and> (\<forall>r \<in> set rows. r ! j = c) \<longrightarrow>
      column_scale (column rows j) = 1 \<and>
      (\<exists>scaled. standard_scaler (Array2 k rows) = Inr scaled \<and> length scaled = length rows)) \<and>
   (unlabel s = [] \<and> determine_trainset iforest s = (Inr (X, y, w), s') \<longrightarrow>
      X = anomalies s \<and> y = replicate (length (anomalies s)) 1 \<and>
      w = replicate (length (anomalies s)) (Fin 1)) \<and>
   (anomalies t = [] \<and> alpha t = Auto \<longrightarrow> (\<exists>e. fst (determine_trainset iforest t) = Inl e))"
  using init_accepts[of args d A U get_cluster_centers]
    standard_scaler_constant[of rows j k c]
    determine_trainset_no_unlabel[of s iforest X y w s']
    determine_trainset_no_anomaly[of t iforest]
  by blast

text \<open>C9 on the constructor call behind \<open>ex_zero_var\<close> and its constant second feature, on
  \<open>ex_no_unlabel\<close> and on \<open>ex_no_anomaly\<close>.\<close>

theorem degenerate_inputs_accepted_witness:
  "arg_anomalies
     (ex_args 2 [[1, 7], [1, 7], [-1, 7]] [[-2, 7], [1, 7], [0, 7], [0, 7], [0, 7]] Auto Auto)
     = Array2 2 [[1, 7], [1, 7], [-1, 7]] \<and>
   arg_unlabel
     (ex_args 2 [[1, 7], [1, 7], [-1, 7]] [[-2, 7], [1, 7], [0, 7], [0, 7], [0, 7]] Auto Auto)
     = Array2 2 [[-2, 7], [1, 7], [0, 7], [0, 7], [0, 7]] \<and>
   init (answers [[1, 0], [-1, 0]] 1)
     (ex_args 2 [[1, 7], [1, 7], [-1, 7]] [[-2, 7], [1, 7], [0, 7], [0, 7], [0, 7]] Auto Auto)
     = Inr ex_zero_var \<and>
   length (anomalies ex_zero_var) = 3 \<and> length (unlabel ex_zero_var) = 5 \<and>
   column_scale (column [[1, 7], [1, 7], [-1, 7], [-2, 7], [1, 7], [0, 7], [0, 7], [0, 7]] 1) = 1 \<and>
   unlabel ex_no_unlabel = [] \<and>
   determine_trainset forest0 ex_no_unlabel =
     (Inr ([[1, 1], [1, 1], [1, -1], [-1, -1], [-1, -1], [-1, 1]], [1, 1, 1, 1, 1, 1],
           [Fin 1, Fin 1, Fin 1, Fin 1, Fin 1, Fin 1]),
      ex_no_unlabel\<lparr>alpha := Num (1 / 3), beta := Num (1 / 4)\<rparr>) \<and>
   [[1, 1], [1, 1], [1, -1], [-1, -1], [-1, -1], [-1, 1]] = anomalies ex_no_unlabel \<and>
   anomalies ex_no_anomaly = [] \<and> alpha ex_no_anomaly = Auto \<and>
   fst (determine_trainset forest0 ex_no_anomaly) = Inl AssertionError"
proof -
  let ?A = "[[1, 7], [1, 7], [-1, 7::real]]"
  let ?U = "[[-2, 7], [1, 7], [0, 7], [0, 7], [0, 7::real]]"
  let ?rows = "[[1, 7], [1, 7], [-1, 7], [-2, 7], [1, 7], [0, 7], [0, 7], [0, 7::real]]"
  let ?args = "ex_args 2 ?A ?U Auto Auto"
  have h0: "arg_anomalies ?args = Array2 2 ?A" "arg_unlabel ?args = Array2 2 ?U"
    by (simp_all add: ex_args_def)
  have h1: "init (answers [[1, 0], [-1, 0]] 1) ?args = Inr ex_zero_var"
    by (rule init_examples)
  have h2: "unlabel ex_no_unlabel = []" by (simp add: ex_no_unlabel_def)
  note h3 = dt_no_unlabel
  have h4: "anomalies ex_no_anomaly = []" "alpha ex_no_anomaly = Auto"
    by (simp_all add: ex_no_anomaly_def)
  have h5: "?rows \<noteq> [] \<and> (1::nat) < 2 \<and> (\<forall>r \<in> set ?rows. r ! 1 = 7)" by simp
  note t = degenerate_inputs_accepted[where args = ?args
      and get_cluster_centers = "answers [[1, 0], [-1, 0]] 1"
      and d = 2 and A = ?A and U = ?U
      and rows = ?rows and j = 1 and k = 2 and c = 7
      and s = ex_no_unlabel and iforest = forest0
      and X = "[[1, 1], [1, 1], [1, -1], [-1, -1], [-1, -1], [-1, 1]]"
      and y = "[1, 1, 1, 1, 1, 1]"
      and w = "[Fin 1, Fin 1, Fin 1, Fin 1, Fin 1, Fin 1]"
      and s' = "ex_no_unlabel\<lparr>alpha := Num (1 / 3), beta := Num (1 / 4)\<rparr>"
      and t = ex_no_anomaly]
  have "(\<exists>s0. init (answers [[1, 0], [-1, 0]] 1) ?args = Inr s0 \<and>
            length (anomalies s0) = length ?A \<and> length (unlabel s0) = length ?U) \<or>
        (\<exists>anoms e. answers [[1, 0], [-1, 0]] 1 anoms (arg_n_clusters ?args) (arg_cluster_algo ?args)
            = Inl e \<and> init (answers [[1, 0], [-1, 0]] 1) ?args = Inl e)"
    using t[THEN conjunct1] h0 by simp
  then have c0: "length (anomalies ex_zero_var) = 3" "length (unlabel ex_zero_var) = 5"
    unfolding h1 by (simp_all add: answers_def)
  have c1: "column_scale (column ?rows 1) = 1"
    using t[THEN conjunct2, THEN conjunct1] h5 by blast
  have c2: "[[1, 1], [1, 1], [1, -1], [-1, -1], [-1, -1], [-1, 1]] = anomalies ex_no_unlabel"
    using t[THEN conjunct2, THEN conjunct2, THEN conjunct1] h2 h3 by blast
  have "\<exists>e. fst (determine_trainset forest0 ex_no_anomaly) = Inl e"
    using t[THEN conjunct2, THEN conjunct2, THEN conjunct2] h4 by blast
  then have c3: "fst (determine_trainset forest0 ex_no_anomaly) = Inl AssertionError"
    by (simp add: dt_no_anomaly)
  show ?thesis using h0 h1 c0 c1 h2 h3 c2 h4 c3 by (intro conjI)
qed

subsection \<open>Thresholds given to the constructor\<close>

lemma mid_score_bounds: "1 / 5 < mid_score \<and> mid_score < 4 / 5"
proof -
  have e1: "exp (- 1 :: real) \<le> 1 / 2"
  proof -
    have "1 + (1::real) \<le> exp 1" by (rule exp_ge_add_one_self)
    then have "1 / exp (1::real) \<le> 1 / 2" by (intro divide_left_mono) auto
    then show ?thesis by (simp add: exp_minus inverse_eq_divide)
  qed
  have e1': "1 / 3 \<le> exp (- 1 :: real)"
  proof -
    have "exp (1::real) \<le> 3" by (rule exp_le)
    then have "1 / 3 \<le> 1 / exp (1::real)" by (intro divide_left_mono) auto
    then show ?thesis by (simp add: exp_minus inverse_eq_divide)
  qed
  have e4: "exp (- 4 :: real) \<le> 1 / 16"
  proof -
    have "(2::real) \<le> exp 1" using exp_ge_add_one_self[of "1::real"] by simp
    then have "(2::real) ^ 4 \<le> exp 1 ^ 4" by (intro power_mono) auto
    moreover have "exp (1::real) ^ 4 = exp 4" using exp_of_nat_mult[of 4 "1::real"] by simp
    ultimately have "(16::real) \<le> exp 4" by simp
    then have "1 / exp (4::real) \<le> 1 / 16" by (intro divide_left_mono) auto
    then show ?thesis by (simp add: exp_minus inverse_eq_divide)
  qed
  have e4': "0 < exp (- 4 :: real)" by simp
  have d: "0 < 1 - exp (- 4 :: real)" using e4 by linarith
  have "1 + 4 * exp (- 4 :: real) < 5 * exp (- 1)" using e1' e4 e4' by linarith
  then have lo: "1 / 5 < mid_score" unfolding mid_score_def using d
    by (simp add: pos_less_divide_eq algebra_simps)
  have "5 * exp (- 1 :: real) < 4 + exp (- 4)" using e1 e4 e4' by linarith
  then have hi: "mid_score < 4 / 5" unfolding mid_score_def using d
    by (simp add: pos_divide_less_eq algebra_simps)
  show ?thesis using lo hi by simp
qed

lemma mid_score_order [simp]:
  "0 \<le> mid_score" "mid_score \<le> 1" "\<not> mid_score \<le> 0" "\<not> 1 \<le> mid_score"
  "mid_score < 4 / 5" "\<not> 4 / 5 \<le> mid_score" "\<not> mid_score \<le> 1 / 5"
  "0 < mid_score" "mid_score < 1" "mid_score \<noteq> 0" "mid_score \<noteq> 1"
  "\<not> mid_score * 5 \<le> 1" "\<not> 4 \<le> mid_score * 5" "mid_score * 5 < 4"
  using mid_score_bounds by simp_all

lemma median_manual:
  "np_median [1, 1, 1, 0, 1, 1, mid_score, mid_score, mid_score, mid_score,
          mid_score, mid_score, mid_score, mid_score] = mid_score"
  by (simp add: np_median_def)

text \<open>
  C1 fails on the code. \<open>ex_manual\<close> is constructed with \<open>alpha = 0.8\<close> and \<open>beta = 0.2\<close>. Line 99
  assigns \<open>self.beta\<close> whatever it held: here the median \<open>mid_score\<close>, about 0.356. The eight
  unlabeled samples with that score are taken as reliable normals, though their score is
  above 0.2, and the instance holds \<open>beta = mid_score\<close> afterwards.
\<close>

theorem manual_beta_overwritten:
  "determine_trainset forest0 ex_manual =
     (Inr ([[1], [1], [-1], [1], [1], [-3], [0], [0], [0], [0], [0], [0], [0], [0]],
           [1, 1, 1, 1, 1, 0, 0, 0, 0, 0, 0, 0, 0, 0],
           [Fin 1, Fin 1, Fin 1, Fin 1, Fin 1, Fin 1,
            Fin (1 - mid_score), Fin (1 - mid_score), Fin (1 - mid_score), Fin (1 - mid_score),
            Fin (1 - mid_score), Fin (1 - mid_score), Fin (1 - mid_score), Fin (1 - mid_score)]),
      ex_manual\<lparr>beta := Num mid_score\<rparr>) \<and>
   1 / 5 < mid_score \<and> mid_score < 4 / 5"
proof -
  have "determine_trainset forest0 ex_manual =
     (Inr ([[1], [1], [-1], [1], [1], [-3], [0], [0], [0], [0], [0], [0], [0], [0]],
           [1, 1, 1, 1, 1, 0, 0, 0, 0, 0, 0, 0, 0, 0],
           [Fin 1, Fin 1, Fin 1, Fin 1, Fin 1, Fin 1,
            Fin (1 - mid_score), Fin (1 - mid_score), Fin (1 - mid_score), Fin (1 - mid_score),
            Fin (1 - mid_score), Fin (1 - mid_score), Fin (1 - mid_score), Fin (1 - mid_score)]),
      ex_manual\<lparr>beta := Num mid_score\<rparr>)"
    unfolding determine_trainset_def ws_manual
    by (simp add: Let_def median_manual resolve_alpha_def ex_manual_def np_min_def np_max_def
        relax.simps assemble_def mask_select_def np_divide_def)
  then show ?thesis using mid_score_bounds by simp
qed

subsection \<open>Further properties of the threshold derivation\<close>

text \<open>Whenever \<open>determine_trainset\<close> returns a training set, the instance holds numbers
  \<open>beta < alpha\<close>.\<close>

theorem determine_trainset_beta_below_alpha:
  assumes "determine_trainset iforest s = (Inr r, s')"
  shows "\<exists>a b. alpha s' = Num a \<and> beta s' = Num b \<and> b < a"
proof -
  from assms obtain ws a b where ba: "b < a" and s': "s' = s\<lparr>alpha := Num a, beta := Num b\<rparr>"
    by (rule determine_trainset_Inr)
  have "alpha s' = Num a" "beta s' = Num b" using s' by simp_all
  then show ?thesis using ba by blast
qed

text \<open>On \<open>ex_auto\<close>.\<close>

theorem determine_trainset_beta_below_alpha_witness:
  "determine_trainset forest0 ex_auto =
     (Inr ([[1], [1], [-1], [1], [-2], [0], [0], [0]], [1, 1, 1, 1, 0, 0, 0, 0],
           [Fin 1, Fin 1, Fin 1, Fin 1, Fin 1, Fin 1, Fin 1, Fin 1]),
      ex_auto\<lparr>alpha := Num (1/2), beta := Num (3/20)\<rparr>) \<and>
   (\<exists>a b. alpha (ex_auto\<lparr>alpha := Num (1/2), beta := Num (3/20)\<rparr>) = Num a \<and>
          beta (ex_auto\<lparr>alpha := Num (1/2), beta := Num (3/20)\<rparr>) = Num b \<and> b < a)"
  using determine_trainset_beta_below_alpha[OF dt_auto] dt_auto by (intro conjI)

lemma relax_ok:
  assumes "0 < a" "0 < p" "p \<le> 100" "5 dvd p"
  shows "\<exists>b'. relax ws a b p = (None, b') \<and> b' < a"
proof (cases "b < a")
  case True
  then show ?thesis by (simp add: relax_exit)
next
  case False
  then have ab: "a \<le> b" by simp
  have p0: "0 \<le> p" using assms(2) by simp
  note rf = relax_find[OF p0 assms(3) ab, of ws]
  show ?thesis
  proof (cases "find (\<lambda>b. b < a) (map (percentile_linear ws) (relax_percents p))")
    case None
    then have "outcome (relax ws a b p) = Inr (a * (9 / 10))"
      using rf assms(2,4) by simp
    then have "relax ws a b p = (None, a * (9 / 10))"
      by (auto simp: outcome_def split: prod.splits option.splits)
    moreover have "a * (9 / 10) < a" using assms(1) by simp
    ultimately show ?thesis by (intro exI[of _ "a * (9 / 10)"] conjI)
  next
    case (Some b')
    then have lt: "b' < a" by (auto simp: find_Some_iff)
    have "outcome (relax ws a b p) = Inr b'" using rf Some by simp
    then have "relax ws a b p = (None, b')"
      by (auto simp: outcome_def split: prod.splits option.splits)
    then show ?thesis using lt by (intro exI[of _ b'] conjI)
  qed
qed

text \<open>When the scores are computed, \<open>alpha\<close> is a positive number and the configured percent
  is a multiple of 5 from 5 to 100, the derivation ends with \<open>beta < alpha\<close>, the assertion
  holds and \<open>determine_trainset\<close> returns.\<close>

theorem determine_trainset_completes:
  assumes "cal_weighted_score iforest s = Inr ws"
    and "resolve_alpha (alpha s) (take (length (anomalies s)) ws) (np_min ws) (gailv s) = Num a"
    and "0 < a" "0 < percent s" "percent s \<le> 100" "5 dvd percent s"
  shows "\<exists>b. b < a \<and>
           determine_trainset iforest s =
             (Inr (assemble s ws a b), s\<lparr>alpha := Num a, beta := Num b\<rparr>)"
proof -
  note dt = determine_trainset_Num[OF assms(1,2)]
  obtain b0 where b0: "(if np_median ws < a then Inr (np_median ws)
                        else np_percentile ws (percent s)) = Inr b0"
    using assms(4,5) by (cases "np_median ws < a") (simp_all add: np_percentile_def)
  obtain b where b: "relax ws a b0 (percent s) = (None, b)" "b < a"
    using relax_ok[OF assms(3-6), of ws b0] by blast
  have "determine_trainset iforest s =
          (Inr (assemble s ws a b), s\<lparr>alpha := Num a, beta := Num b\<rparr>)"
    unfolding dt b0 using b by simp
  then show ?thesis using b(2) by (intro exI[of _ b] conjI)
qed

text \<open>On \<open>ex_auto\<close>.\<close>

theorem determine_trainset_completes_witness:
  "cal_weighted_score forest0 ex_auto = Inr [1, 1, 1, 0, 1, 0, 0, 0] \<and>
   resolve_alpha (alpha ex_auto) (take (length (anomalies ex_auto)) [1, 1, 1, 0, 1, 0, 0, 0])
     (np_min [1, 1, 1, 0, 1, 0, 0, 0]) (gailv ex_auto) = Num (1 / 2) \<and>
   (0::real) < 1 / 2 \<and> 0 < percent ex_auto \<and> percent ex_auto \<le> 100 \<and> 5 dvd percent ex_auto \<and>
   (\<exists>b. b < 1 / 2 \<and>
        determine_trainset forest0 ex_auto =
          (Inr (assemble ex_auto [1, 1, 1, 0, 1, 0, 0, 0] (1 / 2) b),
           ex_auto\<lparr>alpha := Num (1 / 2), beta := Num b\<rparr>))"
proof -
  note h1 = ws_auto
  have h2: "resolve_alpha (alpha ex_auto) (take (length (anomalies ex_auto)) [1, 1, 1, 0, 1, 0, 0, 0])
     (np_min [1, 1, 1, 0, 1, 0, 0, 0]) (gailv ex_auto) = Num (1 / 2)"
    by (simp add: resolve_alpha_def ex_auto_def np_mean_def np_min_def)
  have h3: "(0::real) < 1 / 2" by simp
  have h4: "0 < percent ex_auto" "percent ex_auto \<le> 100" "5 dvd percent ex_auto"
    by (simp_all add: ex_auto_def)
  note c = determine_trainset_completes[OF h1 h2 h3 h4]
  show ?thesis using h1 h2 h3 h4 c by (intro conjI)
qed

text \<open>The result of \<open>determine_trainset\<close> does not depend on the value of \<open>self.beta\<close> before
  the call.\<close>

theorem supplied_beta_ignored:
  "fst (determine_trainset iforest (s\<lparr>beta := t\<rparr>)) = fst (determine_trainset iforest s)"
  unfolding determine_trainset_def Let_def
  by (simp split: sum.splits thr.splits prod.splits option.splits)

end
